theory Spec2Isabelle
  imports Main "HOL-Library.Word" "HOL-Library.Sublist"
begin

unbundle bit_operations_syntax

section \<open>Strings of the host\<close>

text \<open>
  A JavaScript string is modelled as a list of its code units; the type \<open>string\<close>
  holds the strings whose code units are below 256, each a character. \<open>slice\<close> is
  \<open>String.prototype.slice\<close> on indices that are already non-negative (every call of
  the sources passes such indices): both ends are clamped to the length, and an end
  before the start gives the empty string.
\<close>

definition slice :: "'a list \<Rightarrow> nat \<Rightarrow> nat \<Rightarrow> 'a list" where
  "slice s a b = take (b - a) (drop a s)"

text \<open>\<open>split_on c s\<close> is \<open>s.split(c)\<close> for a one-character separator.\<close>

fun split_on :: "char \<Rightarrow> string \<Rightarrow> string list" where
  "split_on c [] = [[]]"
| "split_on c (x # xs) =
     (if x = c then [] # split_on c xs
      else (case split_on c xs of
              [] \<Rightarrow> [[x]]
            | w # ws \<Rightarrow> (x # w) # ws))"

text \<open>\<open>join_with sep xs\<close> is \<open>xs.join(sep)\<close>.\<close>

fun join_with :: "string \<Rightarrow> string list \<Rightarrow> string" where
  "join_with sep [] = []"
| "join_with sep [x] = x"
| "join_with sep (x # y # ys) = x @ sep @ join_with sep (y # ys)"

section \<open>glob.ts\<close>

datatype GlobSegment = Literal string | Single | Double

text \<open>\<open>path.split('/').filter((s) => s.length > 0)\<close>, used for patterns and paths alike.\<close>

definition pathParts_of :: "string \<Rightarrow> string list" where
  "pathParts_of path = filter (\<lambda>s. length s > 0) (split_on CHR ''/'' path)"

definition parseGlobSegments :: "string \<Rightarrow> GlobSegment list" where
  "parseGlobSegments pattern =
     map (\<lambda>part. if part = ''**'' then Double
                  else if part = ''*'' then Single
                  else Literal part)
         (pathParts_of pattern)"

text \<open>
  \<open>matchSegments\<close> with its \<open>for (skip ...)\<close> loop as the second function of a
  mutual recursion; the loop condition \<open>skip <= path.length - pi\<close> is written without
  subtraction.
\<close>

function matchSegments :: "GlobSegment list \<Rightarrow> string list \<Rightarrow> nat \<Rightarrow> nat \<Rightarrow> bool"
  and matchSkip :: "GlobSegment list \<Rightarrow> string list \<Rightarrow> nat \<Rightarrow> nat \<Rightarrow> nat \<Rightarrow> bool"
where
  "matchSegments glob path gi pi =
     (if gi \<ge> length glob then pi \<ge> length path
      else (case glob ! gi of
              Double \<Rightarrow> matchSkip glob path gi pi 0
            | Single \<Rightarrow>
                (if pi \<ge> length path then False
                 else matchSegments glob path (gi + 1) (pi + 1))
            | Literal v \<Rightarrow>
                (if pi \<ge> length path then False
                 else if v \<noteq> path ! pi then False
                 else matchSegments glob path (gi + 1) (pi + 1))))"
| "matchSkip glob path gi pi skip =
     (if pi + skip \<le> length path then
        (if matchSegments glob path (gi + 1) (pi + skip) then True
         else matchSkip glob path gi pi (skip + 1))
      else False)"
  by pat_completeness auto
termination
  by (relation "measures
         [\<lambda>x. case x of
             Inl (glob, path, gi, pi) \<Rightarrow>
               (if gi \<ge> length glob then 0 else 3 * (length glob - gi) + 2)
           | Inr (glob, path, gi, pi, skip) \<Rightarrow> 3 * (length glob - gi) + 1,
          \<lambda>x. case x of
             Inl (glob, path, gi, pi) \<Rightarrow> 0
           | Inr (glob, path, gi, pi, skip) \<Rightarrow> Suc (length path) - (pi + skip)]")
     auto

definition globMatch :: "string \<Rightarrow> string \<Rightarrow> bool" where
  "globMatch pattern path =
     matchSegments (parseGlobSegments pattern) (pathParts_of path) 0 0"

text \<open>
  \<open>extractGlobCaptures\<close>: the inner function \<open>extract\<close> (here \<open>extractAt\<close>)
  pushes onto the shared array \<open>captures\<close>, which the model threads through as the last argument and returns
  with the boolean result.
\<close>

function extractAt :: "GlobSegment list \<Rightarrow> string list \<Rightarrow> nat \<Rightarrow> nat \<Rightarrow> string list
                      \<Rightarrow> bool \<times> string list"
  and extractSkip :: "GlobSegment list \<Rightarrow> string list \<Rightarrow> nat \<Rightarrow> nat \<Rightarrow> nat \<Rightarrow> string list
                      \<Rightarrow> bool \<times> string list"
where
  "extractAt segments pathParts gi pi captures =
     (if gi \<ge> length segments then (pi \<ge> length pathParts, captures)
      else (case segments ! gi of
              Double \<Rightarrow> extractSkip segments pathParts gi pi 0 captures
            | Single \<Rightarrow>
                (if pi \<ge> length pathParts then (False, captures)
                 else extractAt segments pathParts (gi + 1) (pi + 1)
                        (captures @ [pathParts ! pi]))
            | Literal v \<Rightarrow>
                (if pi \<ge> length pathParts then (False, captures)
                 else if v \<noteq> pathParts ! pi then (False, captures)
                 else extractAt segments pathParts (gi + 1) (pi + 1) captures)))"
| "extractSkip segments pathParts gi pi skip captures =
     (if pi + skip \<le> length pathParts then
        (let tempCaptures = slice pathParts pi (pi + skip) in
         case extractAt segments pathParts (gi + 1) (pi + skip) captures of
           (True, captures') \<Rightarrow> (True, captures' @ tempCaptures)
         | (False, captures') \<Rightarrow>
             extractSkip segments pathParts gi pi (skip + 1) captures')
      else (False, captures))"
  by pat_completeness auto
termination
  by (relation "measures
         [\<lambda>x. case x of
             Inl (segs, parts, gi, pi, caps) \<Rightarrow>
               (if gi \<ge> length segs then 0 else 3 * (length segs - gi) + 2)
           | Inr (segs, parts, gi, pi, skip, caps) \<Rightarrow> 3 * (length segs - gi) + 1,
          \<lambda>x. case x of
             Inl (segs, parts, gi, pi, caps) \<Rightarrow> 0
           | Inr (segs, parts, gi, pi, skip, caps) \<Rightarrow> Suc (length parts) - (pi + skip)]")
     auto

definition extractGlobCaptures :: "string \<Rightarrow> string \<Rightarrow> string list option" where
  "extractGlobCaptures pattern path =
     (case extractAt (parseGlobSegments pattern) (pathParts_of path) 0 0 [] of
        (True, captures) \<Rightarrow> Some captures
      | (False, captures) \<Rightarrow> None)"

section \<open>template.ts\<close>

subsection \<open>Numbers as text\<close>

definition digit_char :: "nat \<Rightarrow> char" where
  "digit_char d = char_of (48 + d)"

definition hex_char :: "nat \<Rightarrow> char" where
  "hex_char d = (if d < 10 then char_of (48 + d) else char_of (87 + d))"

text \<open>\<open>dec n\<close> is the text a template literal gives for the loop index \<open>i\<close>.\<close>

fun dec :: "nat \<Rightarrow> string" where
  "dec n = (if n < 10 then [digit_char n] else dec (n div 10) @ [digit_char (n mod 10)])"

declare dec.simps [simp del]

text \<open>\<open>toString16 n\<close> is \<open>n.toString(16)\<close> for a non-negative integer.\<close>

fun toString16 :: "nat \<Rightarrow> string" where
  "toString16 n =
     (if n < 16 then [hex_char n] else toString16 (n div 16) @ [hex_char (n mod 16)])"

declare toString16.simps [simp del]

definition padStart :: "nat \<Rightarrow> char \<Rightarrow> string \<Rightarrow> string" where
  "padStart n c s = replicate (n - length s) c @ s"

subsection \<open>The clock and the random source\<close>

text \<open>
  \<open>generateId\<close> reads \<open>Date.now()\<close> and \<open>Math.random()\<close>. The model makes both
  explicit: \<open>clock e k\<close> and \<open>rnd e k\<close> are what the \<open>k\<close>-th call of
  \<open>generateId\<close> reads (\<open>rnd\<close> already floored, as
  \<open>Math.floor(Math.random() * 0xffff)\<close>), and \<open>ticks e\<close> counts the calls made so
  far. \<open>^\<close> works on 32-bit integers and \<open>>>> 0\<close> reads the result unsigned.
\<close>

record env =
  ticks :: nat
  clock :: "nat \<Rightarrow> nat"
  rnd :: "nat \<Rightarrow> nat"

definition generateId :: "env \<Rightarrow> string \<times> env" where
  "generateId e =
     (let timestamp = clock e (ticks e);
          random = rnd e (ticks e)
      in (padStart 8 CHR ''0''
            (toString16 (unat ((word_of_nat timestamp :: 32 word) XOR word_of_nat random))),
          e\<lparr>ticks := Suc (ticks e)\<rparr>))"

subsection \<open>Replacement by the host\<close>

definition isDigit :: "char \<Rightarrow> bool" where
  "isDigit c = ((48::nat) \<le> of_char c \<and> (of_char c :: nat) \<le> 57)"

definition digitVal :: "char \<Rightarrow> nat" where
  "digitVal c = (of_char c :: nat) - 48"

definition capText :: "'a list option \<Rightarrow> 'a list" where
  "capText c = (case c of None \<Rightarrow> [] | Some s \<Rightarrow> s)"

text \<open>
  \<open>getSubstitution caps matched str position replacement\<close> is the host's expansion of
  a replacement string given to \<open>String.prototype.replace\<close>: \<open>$$\<close> is a dollar,
  \<open>$&\<close> the matched text, \<open>$`\<close> and \<open>$'\<close> the text before and after the match,
  \<open>$n\<close> and \<open>$nn\<close> the capture of that number when the pattern has one (two digits
  are tried first), and any other dollar stands for itself. \<open>caps\<close> are the captures
  \<open>1, 2, ...\<close> of the match. Named references \<open>$<name>\<close> are outside the model:
  a match carries numbered groups only, and the host copies \<open>$<\<close> literally for a
  pattern without named groups.
\<close>

fun getSubstitution :: "string option list \<Rightarrow> string \<Rightarrow> string \<Rightarrow> nat \<Rightarrow> string \<Rightarrow> string"
where
  "getSubstitution caps m s p [] = []"
| "getSubstitution caps m s p [c] = [c]"
| "getSubstitution caps m s p (c # d # r) =
     (if c \<noteq> CHR ''$'' then c # getSubstitution caps m s p (d # r)
      else if d = CHR ''$'' then CHR ''$'' # getSubstitution caps m s p r
      else if d = CHR ''&'' then m @ getSubstitution caps m s p r
      else if d = CHR 0x60 then take p s @ getSubstitution caps m s p r
      else if d = CHR 0x27 then drop (p + length m) s @ getSubstitution caps m s p r
      else if isDigit d then
        (case r of
           [] \<Rightarrow>
             (if 1 \<le> digitVal d \<and> digitVal d \<le> length caps
              then capText (caps ! (digitVal d - 1))
              else [c, d])
         | e # r' \<Rightarrow>
             (if isDigit e \<and> 1 \<le> 10 * digitVal d + digitVal e
                 \<and> 10 * digitVal d + digitVal e \<le> length caps
              then capText (caps ! (10 * digitVal d + digitVal e - 1))
                     @ getSubstitution caps m s p r'
              else if 1 \<le> digitVal d \<and> digitVal d \<le> length caps
              then capText (caps ! (digitVal d - 1)) @ getSubstitution caps m s p (e # r')
              else c # d # getSubstitution caps m s p (e # r')))
      else c # getSubstitution caps m s p (d # r))"

text \<open>
  \<open>replaceAllLit pat repl s\<close> is \<open>s.replace(re, repl)\<close> for a global pattern \<open>re\<close>
  that matches exactly the text \<open>pat\<close> and has no capture group, as the patterns built
  for \<open>${N}\<close>, \<open>${path.N}\<close>, \<open>${uuid}\<close> and \<open>${input}\<close> are. The scan goes left to
  right; \<open>p\<close> is the position in \<open>s\<close> and \<open>k\<close> the number of characters of the
  current match still to be skipped.
\<close>

fun replaceFrom :: "string \<Rightarrow> string \<Rightarrow> string \<Rightarrow> nat \<Rightarrow> nat \<Rightarrow> string \<Rightarrow> string" where
  "replaceFrom pat repl s p k [] = []"
| "replaceFrom pat repl s p k (c # cs) =
     (if 0 < k then replaceFrom pat repl s (p + 1) (k - 1) cs
      else if pat \<noteq> [] \<and> prefix pat (c # cs)
      then getSubstitution [] pat s p repl @ replaceFrom pat repl s (p + 1) (length pat - 1) cs
      else c # replaceFrom pat repl s (p + 1) 0 cs)"

definition replaceAllLit :: "string \<Rightarrow> string \<Rightarrow> string \<Rightarrow> string" where
  "replaceAllLit pat repl s = replaceFrom pat repl s 0 0 s"

subsection \<open>Structured values\<close>

text \<open>
  A value of type \<open>unknown\<close>: \<open>null\<close>, a boolean, a number (integers only, and of
  those the ones below \<open>10\<^sup>2\<^sup>1\<close> in size, which the host prints without an
  exponent), a string,
  an array or an object with its own properties in insertion order. \<open>undefined\<close> is
  \<open>None\<close> of \<open>jvalue option\<close>.
\<close>

datatype jvalue =
    JNull
  | JBool bool
  | JNum int
  | JStr string
  | JArr "jvalue list"
  | JObj "(string \<times> jvalue) list"

text \<open>
  \<open>getProp v part\<close> is \<open>v[part]\<close> for a value whose \<open>typeof\<close> is \<open>object\<close>: an own
  property of an object, an element or the length of an array. Inherited properties are
  outside the model.
\<close>

fun getProp :: "jvalue \<Rightarrow> string \<Rightarrow> jvalue option" where
  "getProp (JObj kvs) part = map_of kvs part"
| "getProp (JArr xs) part =
     (if part = ''length'' then Some (JNum (int (length xs)))
      else (case find (\<lambda>i. dec i = part) [0..<length xs] of
              None \<Rightarrow> None
            | Some i \<Rightarrow> Some (xs ! i)))"
| "getProp v part = None"

fun getNestedLoop :: "jvalue option \<Rightarrow> string list \<Rightarrow> jvalue option" where
  "getNestedLoop current [] = current"
| "getNestedLoop current (part # parts) =
     (case current of
        None \<Rightarrow> None
      | Some JNull \<Rightarrow> None
      | Some (JObj kvs) \<Rightarrow> getNestedLoop (getProp (JObj kvs) part) parts
      | Some (JArr xs) \<Rightarrow> getNestedLoop (getProp (JArr xs) part) parts
      | Some v \<Rightarrow> None)"

definition getNestedValue :: "jvalue \<Rightarrow> string \<Rightarrow> jvalue option" where
  "getNestedValue obj path = getNestedLoop (Some obj) (split_on CHR ''.'' path)"

text \<open>\<open>String(value)\<close> for a number or a boolean.\<close>

definition showInt :: "int \<Rightarrow> string" where
  "showInt i = (if i < 0 then CHR ''-'' # dec (nat (- i)) else dec (nat i))"

subsection \<open>The \<open>${data...}\<close> pass\<close>

definition isDataPathChar :: "char \<Rightarrow> bool" where
  "isDataPathChar c =
     (let n = (of_char c :: nat) in
      (97 \<le> n \<and> n \<le> 122) \<or> (65 \<le> n \<and> n \<le> 90) \<or> (48 \<le> n \<and> n \<le> 57)
      \<or> c = CHR ''_'' \<or> c = CHR ''.'')"

text \<open>
  A match of \<open>/\$\{data\.([a-zA-Z0-9_.]+)\}/\<close> at the head of \<open>t\<close>: its length and
  its capture. The closing brace is not in the class, so the greedy run is the only
  candidate.
\<close>

definition matchData :: "string \<Rightarrow> (nat \<times> string) option" where
  "matchData t =
     (if prefix ''${data.'' t then
        (let run = takeWhile isDataPathChar (drop 7 t) in
         if run \<noteq> [] \<and> prefix ''}'' (drop (7 + length run) t)
         then Some (7 + length run + 1, run) else None)
      else None)"

text \<open>
  The callback of the data pass; \<open>stringify\<close> is the host's \<open>JSON.stringify\<close>. What
  a callback returns is inserted as it is, without dollar expansion.
\<close>

definition dataReplacement :: "(jvalue \<Rightarrow> string) \<Rightarrow> jvalue \<Rightarrow> string \<Rightarrow> string" where
  "dataReplacement stringify d path =
     (case getNestedValue d path of
        None \<Rightarrow> []
      | Some JNull \<Rightarrow> []
      | Some (JStr s) \<Rightarrow> s
      | Some (JNum i) \<Rightarrow> showInt i
      | Some (JBool b) \<Rightarrow> (if b then ''true'' else ''false'')
      | Some v \<Rightarrow> stringify v)"

fun replaceDataFrom :: "(jvalue \<Rightarrow> string) \<Rightarrow> jvalue \<Rightarrow> nat \<Rightarrow> string \<Rightarrow> string" where
  "replaceDataFrom stringify d k [] = []"
| "replaceDataFrom stringify d k (c # cs) =
     (if 0 < k then replaceDataFrom stringify d (k - 1) cs
      else (case matchData (c # cs) of
              Some (n, path) \<Rightarrow>
                dataReplacement stringify d path @ replaceDataFrom stringify d (n - 1) cs
            | None \<Rightarrow> c # replaceDataFrom stringify d 0 cs))"

subsection \<open>substituteString\<close>

record TemplateContext =
  captures :: "string option list option"
  path :: "string list option"
  data :: "jvalue option"
  input :: "string option"

definition substCaptures :: "string option list \<Rightarrow> string \<Rightarrow> string" where
  "substCaptures cs template =
     fold (\<lambda>i result. replaceAllLit (''${'' @ dec i @ ''}'') (capText (cs ! i)) result)
          [0..<length cs] template"

definition substPath :: "string list \<Rightarrow> string \<Rightarrow> string" where
  "substPath ps template =
     fold (\<lambda>i result. replaceAllLit (''${path.'' @ dec i @ ''}'') (ps ! i) result)
          [0..<length ps] template"

definition substituteString ::
  "(jvalue \<Rightarrow> string) \<Rightarrow> string \<Rightarrow> TemplateContext \<Rightarrow> env \<Rightarrow> string \<times> env" where
  "substituteString stringify template ctx e =
     (let result = template;
          result = (case captures ctx of None \<Rightarrow> result | Some cs \<Rightarrow> substCaptures cs result);
          result = (case path ctx of None \<Rightarrow> result | Some ps \<Rightarrow> substPath ps result);
          (uuid, e') = generateId e;
          result = replaceAllLit ''${uuid}'' uuid result;
          result = (case input ctx of None \<Rightarrow> result
                    | Some inp \<Rightarrow> replaceAllLit ''${input}'' inp result);
          result = (case data ctx of None \<Rightarrow> result
                    | Some d \<Rightarrow> replaceDataFrom stringify d 0 result)
      in (result, e'))"

text \<open>
  The five blocks of \<open>substituteString\<close> one by one, each as a function on the text
  reached so far: the capture loop, the path loop, the \<open>${uuid}\<close> replacement with
  the identifier \<open>u\<close>, the replacement of \<open>${input}\<close> and that of \<open>${data...}\<close>.
  A block guarded by \<open>if (ctx.f)\<close> leaves the text alone when the field is absent.
\<close>

definition capturesPass :: "string option list option \<Rightarrow> string \<Rightarrow> string" where
  "capturesPass cso result = (case cso of None \<Rightarrow> result | Some cs \<Rightarrow> substCaptures cs result)"

definition pathPass :: "string list option \<Rightarrow> string \<Rightarrow> string" where
  "pathPass pso result = (case pso of None \<Rightarrow> result | Some ps \<Rightarrow> substPath ps result)"

definition uuidPass :: "string \<Rightarrow> string \<Rightarrow> string" where
  "uuidPass u result = replaceAllLit ''${uuid}'' u result"

definition inputPass :: "string option \<Rightarrow> string \<Rightarrow> string" where
  "inputPass io result =
     (case io of None \<Rightarrow> result | Some inp \<Rightarrow> replaceAllLit ''${input}'' inp result)"

definition dataPass :: "(jvalue \<Rightarrow> string) \<Rightarrow> jvalue option \<Rightarrow> string \<Rightarrow> string" where
  "dataPass stringify dopt result =
     (case dopt of None \<Rightarrow> result | Some d \<Rightarrow> replaceDataFrom stringify d 0 result)"

text \<open>
  A context in which every kind of value holds a placeholder of a later or an earlier
  pass: capture 1 reads \<open>${path.1}\<close> and capture 2 \<open>${data.k}\<close>, the path segments
  read \<open>${uuid}\<close> and \<open>${input}\<close>, the input reads \<open>${uuid}${data.k}\<close>, and the
  data hold the text \<open>V\<close> under the key \<open>k\<close>.
\<close>

definition cascadeContext :: "string option \<Rightarrow> string \<Rightarrow> TemplateContext" where
  "cascadeContext c0 V =
     \<lparr>captures = Some [c0, Some ''${path.1}'', Some ''${data.k}''],
      path = Some [''${uuid}'', ''${input}''],
      data = Some (JObj [(''k'', JStr V)]),
      input = Some ''${uuid}${data.k}''\<rparr>"

subsection \<open>Templates with several placeholders, and example hosts\<close>

text \<open>
  \<open>fillWith u seps rest\<close> is the text \<open>s\<^sub>1 u s\<^sub>2 u ... s\<^sub>n u rest\<close>: with
  \<open>u = ${uuid}\<close> a template with one occurrence of the placeholder per element of
  \<open>seps\<close>, with \<open>u\<close> an identifier the same template with every occurrence replaced
  by it.
\<close>

fun fillWith :: "string \<Rightarrow> string list \<Rightarrow> string \<Rightarrow> string" where
  "fillWith u [] rest = rest"
| "fillWith u (s # ss) rest = s @ u @ fillWith u ss rest"

text \<open>
  Compact JSON text, as \<open>JSON.stringify\<close> gives it for values whose strings hold no
  control characters; the argument for \<open>stringify\<close> in the worked examples.
\<close>

definition quoteJ :: "string \<Rightarrow> string" where
  "quoteJ s =
     CHR 0x22 # concat (map (\<lambda>c. if c = CHR 0x22 then [CHR 0x5C, CHR 0x22]
                                   else if c = CHR 0x5C then [CHR 0x5C, CHR 0x5C]
                                   else [c]) s) @ [CHR 0x22]"

fun stringifyJ :: "jvalue \<Rightarrow> string" where
  "stringifyJ JNull = ''null''"
| "stringifyJ (JBool b) = (if b then ''true'' else ''false'')"
| "stringifyJ (JNum i) = showInt i"
| "stringifyJ (JStr s) = quoteJ s"
| "stringifyJ (JArr xs) = ''['' @ join_with '','' (map stringifyJ xs) @ '']''"
| "stringifyJ (JObj kvs) =
     ''{'' @ join_with '','' (map (\<lambda>kv. quoteJ (fst kv) @ '':'' @ stringifyJ (snd kv)) kvs) @ ''}''"

text \<open>
  A clock that advances by one millisecond per call with a random source that always
  draws zero: successive calls of \<open>generateId\<close> give \<open>00000000\<close>, \<open>00000001\<close>, ...
\<close>

definition countingEnv :: env where
  "countingEnv = \<lparr>ticks = 0, clock = (\<lambda>k. k), rnd = (\<lambda>k. 0)\<rparr>"

definition emptyContext :: TemplateContext where
  "emptyContext = \<lparr>captures = None, path = None, data = None, input = None\<rparr>"


section \<open>The host's regular expressions\<close>

text \<open>
  No regular-expression engine belongs to the repository: the code uses the host's
  \<open>RegExp\<close>. A compiled pattern is therefore modelled by what it does. Its
  \<open>matchAt\<close> is the host's matcher for the pattern's source and flags: called on a
  text and a position it fails or returns the length of the match that starts there
  and the captures \<open>1, 2, ...\<close> (an unset capture is \<open>None\<close>, the host's
  \<open>undefined\<close>). The \<open>lastIndex\<close> of a \<open>RegExp\<close> object is mutable; \<open>rid\<close>
  names the object, and a \<open>store\<close> gives the current \<open>lastIndex\<close> of every object.

  A string of the host is a sequence of 16-bit code units, and positions and lengths
  count code units. A text is a list of code units of a type \<open>'u\<close>: a \<open>string\<close>, whose
  characters are the code units below 256, or a list of numbers where a text has to
  hold other code units. \<open>unitCode\<close> gives the number of a code unit of the texts a
  pattern reads: \<open>of_char\<close> for characters, the identity for numbers. Only a pattern
  with the flag \<open>u\<close> or \<open>v\<close> looks at it.
\<close>

type_synonym 'u matcher = "'u list \<Rightarrow> nat \<Rightarrow> (nat \<times> 'u list option list) option"

record 'u RegExp =
  source :: string
  flags :: string
  matchAt :: "'u matcher"
  rid :: nat
  unitCode :: "'u \<Rightarrow> nat"

type_synonym store = "nat \<Rightarrow> nat"

text \<open>
  The result of \<open>exec\<close>: \<open>m_index\<close> is \<open>match.index\<close> and \<open>m_array\<close> the array
  itself, \<open>match[0]\<close> first.
\<close>

record 'u ExecArray =
  m_index :: nat
  m_array :: "'u list option list"

definition matched :: "'u ExecArray \<Rightarrow> 'u list" where
  "matched m = capText (m_array m ! 0)"

definition isGlobal :: "'u RegExp \<Rightarrow> bool" where
  "isGlobal re = (CHR ''g'' \<in> set (flags re))"

definition isSticky :: "'u RegExp \<Rightarrow> bool" where
  "isSticky re = (CHR ''y'' \<in> set (flags re))"

text \<open>\<open>fullUnicode\<close> of \<open>RegExpBuiltinExec\<close>: the flags contain \<open>u\<close> or \<open>v\<close>.\<close>

definition isUnicode :: "'u RegExp \<Rightarrow> bool" where
  "isUnicode re = (CHR ''u'' \<in> set (flags re) \<or> CHR ''v'' \<in> set (flags re))"

subsection \<open>Patterns without the flags \<open>u\<close> and \<open>v\<close>\<close>

text \<open>
  \<open>execFrom\<close> is the search of \<open>RegExpBuiltinExec\<close> from \<open>lastIndex\<close> for a pattern
  that has neither the flag \<open>u\<close> nor \<open>v\<close>: past the end of the text it fails;
  otherwise the matcher is tried at \<open>lastIndex\<close>, and on failure at the next position,
  unless the pattern is sticky. The matched text is the part of the input from the
  start to the end the matcher reports (the host never reports an end beyond the input;
  \<open>slice\<close> keeps an arbitrary \<open>matchAt\<close> within it).
\<close>

function execFrom :: "'u matcher \<Rightarrow> bool \<Rightarrow> 'u list \<Rightarrow> nat \<Rightarrow> 'u ExecArray option" where
  "execFrom mt sticky S lastIndex =
     (if lastIndex > length S then None
      else (case mt S lastIndex of
              Some (len, caps) \<Rightarrow>
                Some \<lparr>m_index = lastIndex,
                      m_array = Some (slice S lastIndex (lastIndex + len)) # caps\<rparr>
            | None \<Rightarrow>
                (if sticky then None else execFrom mt sticky S (lastIndex + 1))))"
  by pat_completeness auto
termination
  by (relation "measure (\<lambda>(mt, sticky, S, lastIndex). Suc (length S) - lastIndex)") auto

declare execFrom.simps [simp del]

subsection \<open>Patterns with the flag \<open>u\<close> or \<open>v\<close>\<close>

text \<open>
  With \<open>fullUnicode\<close> the host matches on code points. A code unit from \<open>D800\<close> to
  \<open>DBFF\<close> followed by one from \<open>DC00\<close> to \<open>DFFF\<close> is a surrogate pair and makes one
  code point; every other code unit is a code point of its own. \<open>pairAt code S i\<close>: a
  pair starts at position \<open>i\<close> of \<open>S\<close>.
\<close>

definition isLeadSurrogate :: "nat \<Rightarrow> bool" where
  "isLeadSurrogate n = (55296 \<le> n \<and> n \<le> 56319)"

definition isTrailSurrogate :: "nat \<Rightarrow> bool" where
  "isTrailSurrogate n = (56320 \<le> n \<and> n \<le> 57343)"

definition pairAt :: "('u \<Rightarrow> nat) \<Rightarrow> 'u list \<Rightarrow> nat \<Rightarrow> bool" where
  "pairAt code S i =
     (i + 1 < length S \<and> isLeadSurrogate (code (S ! i)) \<and> isTrailSurrogate (code (S ! (i + 1))))"

text \<open>
  The position at which the code point that holds the code unit \<open>i\<close> starts: one
  back when \<open>i\<close> is the second half of a pair. This is the \<open>inputIndex\<close> at which
  \<open>RegExpBuiltinExec\<close> runs the matcher for \<open>lastIndex = i\<close>.
\<close>

definition codePointStart :: "('u \<Rightarrow> nat) \<Rightarrow> 'u list \<Rightarrow> nat \<Rightarrow> nat" where
  "codePointStart code S i = (if 0 < i \<and> pairAt code S (i - 1) then i - 1 else i)"

text \<open>\<open>AdvanceStringIndex(S, i, true)\<close>: past the code point that starts at \<open>i\<close>.\<close>

definition advanceStringIndex :: "('u \<Rightarrow> nat) \<Rightarrow> 'u list \<Rightarrow> nat \<Rightarrow> nat" where
  "advanceStringIndex code S i = (if pairAt code S i then i + 2 else i + 1)"

text \<open>
  The matcher of such a pattern consumes whole code points, so a match never ends
  between the halves of a pair; \<open>codePointEnd\<close> keeps an arbitrary \<open>matchAt\<close> to
  that, as \<open>slice\<close> keeps it within the input.
\<close>

definition codePointEnd :: "('u \<Rightarrow> nat) \<Rightarrow> 'u list \<Rightarrow> nat \<Rightarrow> nat" where
  "codePointEnd code S i = (if 0 < i \<and> pairAt code S (i - 1) then i + 1 else i)"

text \<open>
  \<open>execFromU\<close> is the search of \<open>RegExpBuiltinExec\<close> from \<open>lastIndex\<close> with
  \<open>fullUnicode\<close>. The matcher runs at the start of the code point that holds
  \<open>lastIndex\<close>, so a search that starts on the second half of a pair can match one
  position before \<open>lastIndex\<close>; \<open>match.index\<close> is where the match starts, and the
  end of the match, which becomes the new \<open>lastIndex\<close>, can lie before the old one. On
  failure the search moves on by \<open>AdvanceStringIndex\<close>.
\<close>

function execFromU :: "('u \<Rightarrow> nat) \<Rightarrow> 'u matcher \<Rightarrow> bool \<Rightarrow> 'u list \<Rightarrow> nat
                        \<Rightarrow> 'u ExecArray option" where
  "execFromU code mt sticky S lastIndex =
     (if lastIndex > length S then None
      else (case mt S (codePointStart code S lastIndex) of
              Some (len, caps) \<Rightarrow>
                Some \<lparr>m_index = codePointStart code S lastIndex,
                      m_array =
                        Some (slice S (codePointStart code S lastIndex)
                                (codePointEnd code S (codePointStart code S lastIndex + len)))
                        # caps\<rparr>
            | None \<Rightarrow>
                (if sticky then None
                 else execFromU code mt sticky S (advanceStringIndex code S lastIndex))))"
  by pat_completeness auto
termination
  by (relation "measure (\<lambda>(code, mt, sticky, S, lastIndex). Suc (length S) - lastIndex)")
     (auto simp: advanceStringIndex_def)

declare execFromU.simps [simp del]

subsection \<open>\<open>exec\<close> and \<open>test\<close>\<close>

text \<open>The search of \<open>RegExpBuiltinExec\<close> for the pattern \<open>re\<close> from \<open>lastIndex\<close>.\<close>

definition execAt :: "'u RegExp \<Rightarrow> 'u list \<Rightarrow> nat \<Rightarrow> 'u ExecArray option" where
  "execAt re S lastIndex =
     (if isUnicode re then execFromU (unitCode re) (matchAt re) (isSticky re) S lastIndex
      else execFrom (matchAt re) (isSticky re) S lastIndex)"

text \<open>
  \<open>re.exec(S)\<close> on an object of the store: a pattern that is neither global nor
  sticky starts at 0 and leaves \<open>lastIndex\<close> alone; otherwise the search starts at
  \<open>lastIndex\<close>, which becomes the end of the match, or 0 when there is none.
\<close>

definition exec :: "'u RegExp \<Rightarrow> 'u list \<Rightarrow> store \<Rightarrow> 'u ExecArray option \<times> store" where
  "exec re S st =
     (if isGlobal re \<or> isSticky re then
        (case execAt re S (st (rid re)) of
           None \<Rightarrow> (None, st(rid re := 0))
         | Some m \<Rightarrow> (Some m, st(rid re := m_index m + length (matched m))))
      else (execAt re S 0, st))"

text \<open>\<open>re.test(S)\<close> is \<open>re.exec(S) !== null\<close>.\<close>

definition test :: "'u RegExp \<Rightarrow> 'u list \<Rightarrow> store \<Rightarrow> bool \<times> store" where
  "test re S st = (case exec re S st of (r, st') \<Rightarrow> (r \<noteq> None, st'))"

text \<open>
  \<open>new RegExp(src, fl)\<close> for texts that are strings; \<open>compile\<close> is the host's
  compiler from a source to its matcher. The new object is given the name \<open>i\<close>.
\<close>

definition newRegExp :: "(string \<Rightarrow> char matcher) \<Rightarrow> string \<Rightarrow> string \<Rightarrow> nat \<Rightarrow> char RegExp" where
  "newRegExp compile src fl i =
     \<lparr>source = src, flags = fl, matchAt = compile src, rid = i, unitCode = of_char\<rparr>"

text \<open>
  \<open>new RegExp(pattern.source, flags)\<close> with the flags of \<open>pattern\<close> and \<open>g\<close> added
  when it is missing, as \<open>findMatches\<close> and \<open>s\<close> make it: the same matcher with
  the global flag. The copy is a new object; its \<open>lastIndex\<close> starts at 0 and is seen
  by the loop that uses the copy only, so the model does not put it in the store.
\<close>

definition globalCopy :: "'u RegExp \<Rightarrow> 'u RegExp" where
  "globalCopy pattern =
     pattern\<lparr>flags := (if CHR ''g'' \<in> set (flags pattern) then flags pattern
                         else flags pattern @ ''g'')\<rparr>"

subsection \<open>The host's loop over all matches\<close>

text \<open>
  \<open>S.replace(re, ...)\<close> and \<open>S.match(re)\<close> for a global \<open>re\<close> run \<open>exec\<close> from
  \<open>lastIndex = 0\<close> until it fails; after an empty match they move \<open>lastIndex\<close> on,
  by one code unit, or past the code point when the pattern has the flag \<open>u\<close> or
  \<open>v\<close>. \<open>hostMatches\<close> is the list of the results of \<open>exec\<close>.
\<close>

definition hostAdvance :: "'u RegExp \<Rightarrow> 'u list \<Rightarrow> nat \<Rightarrow> nat" where
  "hostAdvance re S i = (if isUnicode re then advanceStringIndex (unitCode re) S i else i + 1)"

function hostLoop :: "'u RegExp \<Rightarrow> 'u list \<Rightarrow> nat \<Rightarrow> 'u ExecArray list" where
  "hostLoop re S lastIndex =
     (case execAt re S lastIndex of
        None \<Rightarrow> []
      | Some m \<Rightarrow>
          m # hostLoop re S
              (if length (matched m) = 0 then hostAdvance re S (m_index m + length (matched m))
               else m_index m + length (matched m)))"
  by pat_completeness auto
termination
proof (relation "measure (\<lambda>(re, S, lastIndex). Suc (length S) - lastIndex)")
  show "wf (measure (\<lambda>(re, S, lastIndex). Suc (length S) - lastIndex))"
    by simp
next
  fix re :: "'u RegExp" and S :: "'u list" and lastIndex :: nat and m :: "'u ExecArray"
  assume ex: "execAt re S lastIndex = Some m"
  let ?e = "m_index m + length (matched m)"
  let ?next = "if length (matched m) = 0 then hostAdvance re S ?e else ?e"
  have progress: "lastIndex \<le> length S \<and> lastIndex < ?next"
  proof (cases "isUnicode re")
    case False
    with ex have "execFrom (matchAt re) (isSticky re) S lastIndex = Some m"
      by (simp add: execAt_def)
    then have "lastIndex \<le> m_index m \<and> m_index m \<le> length S"
    proof (induction "matchAt re" "isSticky re" S lastIndex rule: execFrom.induct)
      case (1 S lastIndex)
      note unfold = execFrom.simps [of "matchAt re" "isSticky re" S lastIndex]
      show ?case
      proof (cases "lastIndex > length S")
        case True
        with "1.prems" unfold show ?thesis by simp
      next
        case inside: False
        show ?thesis
        proof (cases "matchAt re S lastIndex")
          case None
          with inside "1.prems" unfold have "\<not> isSticky re"
            and "execFrom (matchAt re) (isSticky re) S (lastIndex + 1) = Some m"
            by (simp_all split: if_splits)
          with "1.hyps" [OF inside None] show ?thesis by simp
        next
          case (Some r)
          with inside "1.prems" unfold show ?thesis by (cases r) auto
        qed
      qed
    qed
    with False show ?thesis by (cases "matched m") (auto simp: hostAdvance_def)
  next
    case True
    with ex have "execFromU (unitCode re) (matchAt re) (isSticky re) S lastIndex = Some m"
      by (simp add: execAt_def)
    then have "\<exists>start len caps. lastIndex \<le> start \<and> start \<le> length S
                 \<and> m_index m = codePointStart (unitCode re) S start
                 \<and> m_array m
                     = Some (slice S (m_index m) (codePointEnd (unitCode re) S (m_index m + len)))
                       # caps"
    proof (induction "unitCode re" "matchAt re" "isSticky re" S lastIndex rule: execFromU.induct)
      case (1 S lastIndex)
      note unfold = execFromU.simps [of "unitCode re" "matchAt re" "isSticky re" S lastIndex]
      show ?case
      proof (cases "lastIndex > length S")
        case True
        with "1.prems" unfold show ?thesis by simp
      next
        case inside: False
        show ?thesis
        proof (cases "matchAt re S (codePointStart (unitCode re) S lastIndex)")
          case None
          with inside "1.prems" unfold have "\<not> isSticky re"
            and "execFromU (unitCode re) (matchAt re) (isSticky re) S
                   (advanceStringIndex (unitCode re) S lastIndex) = Some m"
            by (simp_all split: if_splits)
          with "1.hyps" [OF inside None] obtain start len caps where
            "advanceStringIndex (unitCode re) S lastIndex \<le> start" "start \<le> length S"
            "m_index m = codePointStart (unitCode re) S start"
            "m_array m
               = Some (slice S (m_index m) (codePointEnd (unitCode re) S (m_index m + len))) # caps"
            by blast
          moreover have "lastIndex \<le> advanceStringIndex (unitCode re) S lastIndex"
            by (simp add: advanceStringIndex_def)
          ultimately show ?thesis by (meson order_trans)
        next
          case (Some r)
          obtain len caps where r: "r = (len, caps)" by (cases r)
          from inside "1.prems" unfold Some r have
            "m = \<lparr>m_index = codePointStart (unitCode re) S lastIndex,
                  m_array =
                    Some (slice S (codePointStart (unitCode re) S lastIndex)
                            (codePointEnd (unitCode re) S
                               (codePointStart (unitCode re) S lastIndex + len))) # caps\<rparr>"
            by simp
          with inside show ?thesis by (intro exI [of _ lastIndex] exI [of _ len] exI [of _ caps]) simp
        qed
      qed
    qed
    then obtain start len caps where
      a: "lastIndex \<le> start" "start \<le> length S" and
      i: "m_index m = codePointStart (unitCode re) S start" and
      arr: "m_array m
             = Some (slice S (m_index m) (codePointEnd (unitCode re) S (m_index m + len))) # caps"
      by blast
    have mt: "matched m = slice S (m_index m) (codePointEnd (unitCode re) S (m_index m + len))"
      using arr by (simp add: matched_def capText_def)
    have "start < ?next"
    proof (cases "0 < start \<and> pairAt (unitCode re) S (start - 1)")
      case False
      then have "m_index m = start" using i by (auto simp: codePointStart_def)
      then show ?thesis
        using True by (cases "matched m") (auto simp: hostAdvance_def advanceStringIndex_def)
    next
      case pair: True
      then have s: "m_index m = start - 1" using i by (simp add: codePointStart_def)
      have p: "pairAt (unitCode re) S (m_index m)" using pair s by simp
      show ?thesis
      proof (cases "length (matched m) = 0")
        case True
        then show ?thesis
          using p pair s \<open>isUnicode re\<close> by (simp add: hostAdvance_def advanceStringIndex_def)
      next
        case False
        have notrail: "\<not> (0 < m_index m \<and> pairAt (unitCode re) S (m_index m - 1))"
          using p by (auto simp: pairAt_def isLeadSurrogate_def isTrailSurrogate_def)
        have "0 < len"
        proof (rule ccontr)
          assume "\<not> 0 < len"
          then have "matched m = []" using mt notrail by (simp add: codePointEnd_def slice_def)
          with False show False by simp
        qed
        then have "m_index m + 2 \<le> codePointEnd (unitCode re) S (m_index m + len)"
          using p by (cases "len = 1") (auto simp: codePointEnd_def)
        moreover have "m_index m + 2 \<le> length S" using p by (simp add: pairAt_def)
        ultimately have "2 \<le> length (matched m)" unfolding mt by (simp add: slice_def) arith
        then show ?thesis using False pair s by simp
      qed
    qed
    with a show ?thesis by simp
  qed
  then show "((re, S, ?next), re, S, lastIndex)
             \<in> measure (\<lambda>(re, S, lastIndex). Suc (length S) - lastIndex)"
    by (cases "matched m") auto
qed

declare hostLoop.simps [simp del]

definition hostMatches :: "'u RegExp \<Rightarrow> 'u list \<Rightarrow> 'u ExecArray list" where
  "hostMatches re S = hostLoop re S 0"

text \<open>
  The pattern that matches exactly the text \<open>lit\<close>, for the worked examples: the
  matcher of \<open>/lit/\<close> when \<open>lit\<close> holds no character special to the host.
\<close>

definition literalMatcher :: "'u list \<Rightarrow> 'u matcher" where
  "literalMatcher lit S i = (if prefix lit (drop i S) then Some (length lit, []) else None)"

definition literalRegExp :: "string \<Rightarrow> string \<Rightarrow> nat \<Rightarrow> char RegExp" where
  "literalRegExp lit fl i =
     \<lparr>source = lit, flags = fl, matchAt = literalMatcher lit, rid = i, unitCode = of_char\<rparr>"

section \<open>commands.ts\<close>

text \<open>
  A \<open>Command\<close> is a function from string to string. A command of the host language
  can also touch the regular-expression objects it closes over, so the model gives it
  the store and takes the store back. A call need not return: \<open>None\<close> is the call
  that runs forever, and a command that calls it does not return either. The
  one-letter commands \<open>x, y, g, v, p, d, c, s, n, l\<close> are named \<open>xCmd\<close>, ...,
  \<open>lCmd\<close> here, leaving the letters to variables.
\<close>

type_synonym 'u Command = "'u list \<Rightarrow> store \<Rightarrow> ('u list \<times> store) option"

record 'u Match =
  m_text :: "'u list"
  m_start :: nat
  m_end :: nat
  m_groups :: "'u list option list"

text \<open>
  \<open>findMatches\<close>. The pattern is copied into a fresh global object \<open>global\<close>, so the
  loop's \<open>lastIndex\<close> is local: it starts at 0, \<open>exec\<close> moves it to the end of
  each match and the loop body one further after an empty match. \<open>matches\<close> is the
  array built so far. For a pattern with the flag \<open>u\<close> or \<open>v\<close> the end of a match
  can lie before the \<open>lastIndex\<close> the search started from, so the loop need not end.
\<close>

partial_function (option) findLoop ::
  "'u RegExp \<Rightarrow> 'u list \<Rightarrow> nat \<Rightarrow> 'u Match list \<Rightarrow> 'u Match list option" where
  "findLoop global tx lastIndex matches =
     (case execAt global tx lastIndex of
        None \<Rightarrow> Some matches
      | Some m \<Rightarrow>
          findLoop global tx
            (if length (matched m) = 0 then m_index m + length (matched m) + 1
             else m_index m + length (matched m))
            (matches @ [\<lparr>m_text = matched m, m_start = m_index m,
                          m_end = m_index m + length (matched m), m_groups = m_array m\<rparr>]))"

declare findLoop.simps [code]

definition findMatches :: "'u RegExp \<Rightarrow> 'u list \<Rightarrow> 'u Match list option" where
  "findMatches pattern tx = findLoop (globalCopy pattern) tx 0 []"

text \<open>The \<open>for\<close> loop of \<open>x\<close>, with \<open>result\<close> and \<open>lastEnd\<close> as accumulators.\<close>

fun xLoop :: "'u Command \<Rightarrow> 'u list \<Rightarrow> 'u Match list \<Rightarrow> 'u list \<Rightarrow> nat \<Rightarrow> store
                \<Rightarrow> (('u list \<times> nat) \<times> store) option" where
  "xLoop cmd inp [] result lastEnd st = Some ((result, lastEnd), st)"
| "xLoop cmd inp (m # ms) result lastEnd st =
     (case cmd (m_text m) st of
        None \<Rightarrow> None
      | Some (out, st') \<Rightarrow>
          xLoop cmd inp ms (result @ slice inp lastEnd (m_start m) @ out) (m_end m) st')"

definition xCmd :: "'u RegExp \<Rightarrow> 'u Command \<Rightarrow> 'u Command" where
  "xCmd pattern cmd = (\<lambda>inp st.
     case findMatches pattern inp of
       None \<Rightarrow> None
     | Some matches \<Rightarrow>
         if length matches = 0 then Some (inp, st)
         else (case xLoop cmd inp matches [] 0 st of
                 None \<Rightarrow> None
               | Some ((result, lastEnd), st') \<Rightarrow> Some (result @ drop lastEnd inp, st')))"

fun yLoop :: "'u Command \<Rightarrow> 'u list \<Rightarrow> 'u Match list \<Rightarrow> 'u list \<Rightarrow> nat \<Rightarrow> store
                \<Rightarrow> (('u list \<times> nat) \<times> store) option" where
  "yLoop cmd inp [] result lastEnd st = Some ((result, lastEnd), st)"
| "yLoop cmd inp (m # ms) result lastEnd st =
     (if m_start m > lastEnd then
        (case cmd (slice inp lastEnd (m_start m)) st of
           None \<Rightarrow> None
         | Some (out, st') \<Rightarrow> yLoop cmd inp ms (result @ out @ m_text m) (m_end m) st')
      else yLoop cmd inp ms (result @ m_text m) (m_end m) st)"

definition yCmd :: "'u RegExp \<Rightarrow> 'u Command \<Rightarrow> 'u Command" where
  "yCmd pattern cmd = (\<lambda>inp st.
     case findMatches pattern inp of
       None \<Rightarrow> None
     | Some matches \<Rightarrow>
         if length matches = 0 then cmd inp st
         else (case yLoop cmd inp matches [] 0 st of
                 None \<Rightarrow> None
               | Some ((result, lastEnd), st') \<Rightarrow>
                   (if lastEnd < length inp then
                      (case cmd (drop lastEnd inp) st' of
                         None \<Rightarrow> None
                       | Some (out, st'') \<Rightarrow> Some (result @ out, st''))
                    else Some (result, st'))))"

definition gCmd :: "'u RegExp \<Rightarrow> 'u Command \<Rightarrow> 'u Command" where
  "gCmd pattern cmd = (\<lambda>inp st.
     case test pattern inp st of
       (True, st') \<Rightarrow> cmd inp st'
     | (False, st') \<Rightarrow> Some (inp, st'))"

definition vCmd :: "'u RegExp \<Rightarrow> 'u Command \<Rightarrow> 'u Command" where
  "vCmd pattern cmd = (\<lambda>inp st.
     case test pattern inp st of
       (False, st') \<Rightarrow> cmd inp st'
     | (True, st') \<Rightarrow> Some (inp, st'))"

definition pCmd :: "'u Command" where
  "pCmd = (\<lambda>inp st. Some (inp, st))"

definition dCmd :: "'u Command" where
  "dCmd = (\<lambda>inp st. Some ([], st))"

definition cCmd :: "'u list \<Rightarrow> 'u Command" where
  "cCmd replacement = (\<lambda>inp st. Some (replacement, st))"

text \<open>
  \<open>s\<close>: \<open>input.replace(global, replacement)\<close> on a fresh global copy of the pattern.
  The host finds the matches by its own loop and builds the result from the texts
  between them and the expansion of the replacement for each.
\<close>

fun sLoop :: "string \<Rightarrow> string \<Rightarrow> char ExecArray list \<Rightarrow> string \<Rightarrow> nat \<Rightarrow> string" where
  "sLoop replacement S [] acc nextPos = acc @ drop nextPos S"
| "sLoop replacement S (m # ms) acc nextPos =
     (if m_index m \<ge> nextPos then
        sLoop replacement S ms
          (acc @ slice S nextPos (m_index m)
               @ getSubstitution (tl (m_array m)) (matched m) S (m_index m) replacement)
          (m_index m + length (matched m))
      else sLoop replacement S ms acc nextPos)"

definition sCmd :: "char RegExp \<Rightarrow> string \<Rightarrow> char Command" where
  "sCmd pattern replacement = (\<lambda>inp st.
     Some (sLoop replacement inp (hostMatches (globalCopy pattern) inp) [] 0, st))"

text \<open>
  The clamped indices of \<open>n\<close> and \<open>l\<close>; \<open>None\<close> is an \<open>end\<close> that is
  \<open>undefined\<close>. Indices are integers.
\<close>

definition startIdx :: "nat \<Rightarrow> int \<Rightarrow> nat" where
  "startIdx len start =
     (if start < 0 then nat (max 0 (int len + start)) else nat (min start (int len)))"

definition endIdx :: "nat \<Rightarrow> int option \<Rightarrow> nat" where
  "endIdx len endOpt =
     (case endOpt of
        None \<Rightarrow> len
      | Some e \<Rightarrow> (if e < 0 then nat (max 0 (int len + e)) else nat (min e (int len))))"

definition nCmd :: "int \<Rightarrow> int option \<Rightarrow> 'u Command \<Rightarrow> 'u Command" where
  "nCmd start endOpt cmd = (\<lambda>inp st.
     let len = length inp;
         si = startIdx len start;
         ei = endIdx len endOpt;
         before = slice inp 0 si;
         selected = slice inp si ei;
         after = drop ei inp
     in (case cmd selected st of
           None \<Rightarrow> None
         | Some (out, st') \<Rightarrow> Some (before @ out @ after, st')))"

definition lCmd :: "int \<Rightarrow> int option \<Rightarrow> char Command \<Rightarrow> char Command" where
  "lCmd start endOpt cmd = (\<lambda>inp st.
     let lines = split_on CHR 0x0A inp;
         len = length lines;
         si = startIdx len start;
         ei = endIdx len endOpt;
         before = slice lines 0 si;
         selected = slice lines si ei;
         after = drop ei lines
     in (case cmd (join_with [CHR 0x0A] selected) st of
           None \<Rightarrow> None
         | Some (out, st') \<Rightarrow>
             Some (join_with [CHR 0x0A] (before @ split_on CHR 0x0A out @ after), st')))"

text \<open>
  \<open>commands.reduce((acc, cmd) => cmd(acc), input)\<close>: once a command does not return,
  neither does the pipeline.
\<close>

definition pipe :: "'u Command list \<Rightarrow> 'u Command" where
  "pipe commands = (\<lambda>inp st.
     fold (\<lambda>cmd r. case r of None \<Rightarrow> None | Some (acc, st') \<Rightarrow> cmd acc st') commands
          (Some (inp, st)))"

definition ifMatch :: "'u RegExp \<Rightarrow> 'u Command \<Rightarrow> 'u Command \<Rightarrow> 'u Command" where
  "ifMatch pattern thenCmd elseCmd = (\<lambda>inp st.
     case test pattern inp st of
       (True, st') \<Rightarrow> thenCmd inp st'
     | (False, st') \<Rightarrow> elseCmd inp st')"

subsection \<open>Reading a match sequence, and a store for the examples\<close>

text \<open>
  \<open>spans_ok inp lo ms\<close>: the matches \<open>ms\<close> are in order from position \<open>lo\<close> on,
  do not overlap, lie within \<open>inp\<close>, and each holds the part of \<open>inp\<close> it spans.
\<close>

fun spans_ok :: "'u list \<Rightarrow> nat \<Rightarrow> 'u Match list \<Rightarrow> bool" where
  "spans_ok inp lo [] = True"
| "spans_ok inp lo (m # ms) =
     (lo \<le> m_start m \<and> m_start m \<le> m_end m \<and> m_end m \<le> length inp
      \<and> m_text m = slice inp (m_start m) (m_end m) \<and> spans_ok inp (m_end m) ms)"

text \<open>The store in which every \<open>lastIndex\<close> is 0, as it is for objects just made.\<close>

definition freshStore :: store where
  "freshStore = (\<lambda>i. 0)"

text \<open>
  The text \<open>'\u{1F600}'\<close>, one code point outside the basic plane: the surrogate pair
  \<open>D83D DE00\<close>. And the pattern \<open>/(?:)/u\<close>, whose matcher matches the empty text at
  every position.
\<close>

definition grinningFace :: "nat list" where
  "grinningFace = [55357, 56832]"

definition emptyUnicodePattern :: "nat RegExp" where
  "emptyUnicodePattern =
     \<lparr>source = ''(?:)'', flags = ''u'', matchAt = (\<lambda>S i. Some (0, [])), rid = 0,
      unitCode = (\<lambda>n. n)\<rparr>"

section \<open>dsl.ts: the fluent builder\<close>

text \<open>
  A pattern argument is a \<open>RegExp\<close> object or a source string. A string is compiled
  on the spot: with flag \<open>g\<close> by \<open>x\<close>, \<open>y\<close> and \<open>s\<close>, whose steps only ever copy
  the pattern, and without flags by \<open>g\<close> and \<open>v\<close>, whose \<open>test\<close> then neither reads
  nor writes \<open>lastIndex\<close>. The store never sees such an object, so all of them are
  given the name 0.
\<close>

datatype PatternArg = Rx "char RegExp" | Src string

definition toRegExp :: "(string \<Rightarrow> char matcher) \<Rightarrow> string \<Rightarrow> PatternArg \<Rightarrow> char RegExp" where
  "toRegExp compile fl arg =
     (case arg of Src src \<Rightarrow> newRegExp compile src fl 0 | Rx re \<Rightarrow> re)"

record SRE =
  commands :: "char Command list"
  sre_input :: string

definition sre :: "string \<Rightarrow> SRE" where
  "sre inp = \<lparr>commands = [], sre_input = inp\<rparr>"

datatype StructuralType = TX | TY

datatype RangeType = TN | TL

fun structuralLoop :: "StructuralType \<Rightarrow> 'u list \<Rightarrow> 'u Match list \<Rightarrow> 'u list \<Rightarrow> nat
                         \<Rightarrow> 'u list \<times> nat" where
  "structuralLoop ty inp [] result lastEnd = (result, lastEnd)"
| "structuralLoop ty inp (m # ms) result lastEnd =
     (if ty = TX
      then structuralLoop ty inp ms (result @ slice inp lastEnd (m_start m) @ m_text m) (m_end m)
      else structuralLoop ty inp ms (result @ slice inp lastEnd (m_start m) @ m_text m) (m_end m))"

definition structuralCommand :: "StructuralType \<Rightarrow> char RegExp \<Rightarrow> char Command" where
  "structuralCommand ty pattern = (\<lambda>inp st.
     case findMatches pattern inp of
       None \<Rightarrow> None
     | Some matches \<Rightarrow>
         if length matches = 0 then Some ((if ty = TX then inp else inp), st)
         else (case structuralLoop ty inp matches [] 0 of
                 (result, lastEnd) \<Rightarrow> Some (result @ drop lastEnd inp, st)))"

definition addStructural :: "StructuralType \<Rightarrow> char RegExp \<Rightarrow> SRE \<Rightarrow> SRE" where
  "addStructural ty pattern this =
     this\<lparr>commands := commands this @ [structuralCommand ty pattern]\<rparr>"

definition rangeCommand :: "RangeType \<Rightarrow> int \<Rightarrow> int option \<Rightarrow> char Command" where
  "rangeCommand ty start endOpt =
     (if ty = TN then
        (\<lambda>inp st.
           let len = length inp;
               si = startIdx len start;
               ei = endIdx len endOpt
           in Some (slice inp si ei, st))
      else
        (\<lambda>inp st.
           let lines = split_on CHR 0x0A inp;
               len = length lines;
               si = startIdx len start;
               ei = endIdx len endOpt
           in Some (join_with [CHR 0x0A] (slice lines si ei), st)))"

definition addRange :: "RangeType \<Rightarrow> int \<Rightarrow> int option \<Rightarrow> SRE \<Rightarrow> SRE" where
  "addRange ty start endOpt this =
     this\<lparr>commands := commands this @ [rangeCommand ty start endOpt]\<rparr>"

definition push :: "char Command \<Rightarrow> SRE \<Rightarrow> SRE" where
  "push cmd this = this\<lparr>commands := commands this @ [cmd]\<rparr>"

text \<open>The methods of the class, the object last.\<close>

definition SRE_x :: "(string \<Rightarrow> char matcher) \<Rightarrow> PatternArg \<Rightarrow> SRE \<Rightarrow> SRE" where
  "SRE_x compile pattern this = addStructural TX (toRegExp compile ''g'' pattern) this"

definition SRE_y :: "(string \<Rightarrow> char matcher) \<Rightarrow> PatternArg \<Rightarrow> SRE \<Rightarrow> SRE" where
  "SRE_y compile pattern this = addStructural TY (toRegExp compile ''g'' pattern) this"

definition SRE_g :: "(string \<Rightarrow> char matcher) \<Rightarrow> PatternArg \<Rightarrow> SRE \<Rightarrow> SRE" where
  "SRE_g compile pattern this =
     (let re = toRegExp compile [] pattern in
      push (\<lambda>inp st. case test re inp st of
                        (True, st') \<Rightarrow> Some (inp, st')
                      | (False, st') \<Rightarrow> Some ([], st')) this)"

definition SRE_v :: "(string \<Rightarrow> char matcher) \<Rightarrow> PatternArg \<Rightarrow> SRE \<Rightarrow> SRE" where
  "SRE_v compile pattern this =
     (let re = toRegExp compile [] pattern in
      push (\<lambda>inp st. case test re inp st of
                        (False, st') \<Rightarrow> Some (inp, st')
                      | (True, st') \<Rightarrow> Some ([], st')) this)"

definition SRE_s :: "(string \<Rightarrow> char matcher) \<Rightarrow> PatternArg \<Rightarrow> string \<Rightarrow> SRE \<Rightarrow> SRE" where
  "SRE_s compile pattern replacement this =
     push (sCmd (toRegExp compile ''g'' pattern) replacement) this"

definition SRE_c :: "string \<Rightarrow> SRE \<Rightarrow> SRE" where
  "SRE_c replacement this = push (cCmd replacement) this"

definition SRE_d :: "SRE \<Rightarrow> SRE" where
  "SRE_d this = push dCmd this"

definition SRE_p :: "SRE \<Rightarrow> SRE" where
  "SRE_p this = push pCmd this"

definition SRE_n :: "int \<Rightarrow> int option \<Rightarrow> SRE \<Rightarrow> SRE" where
  "SRE_n start endOpt this = addRange TN start endOpt this"

definition SRE_l :: "int \<Rightarrow> int option \<Rightarrow> SRE \<Rightarrow> SRE" where
  "SRE_l start endOpt this = addRange TL start endOpt this"

definition SRE_value :: "SRE \<Rightarrow> store \<Rightarrow> (string \<times> store) option" where
  "SRE_value this st =
     fold (\<lambda>cmd r. case r of None \<Rightarrow> None | Some (acc, st') \<Rightarrow> cmd acc st') (commands this)
          (Some (sre_input this, st))"

subsection \<open>Chains of steps\<close>

text \<open>
  A chained expression \<open>sre(input).a(...).b(...)\<close> is the list of its method calls;
  \<open>chain\<close> performs them in order on \<open>sre(input)\<close>.
\<close>

datatype Step =
    StepX PatternArg
  | StepY PatternArg
  | StepG PatternArg
  | StepV PatternArg
  | StepS PatternArg string
  | StepC string
  | StepD
  | StepP
  | StepN int "int option"
  | StepL int "int option"

fun callStep :: "(string \<Rightarrow> char matcher) \<Rightarrow> Step \<Rightarrow> SRE \<Rightarrow> SRE" where
  "callStep compile (StepX pat) this = SRE_x compile pat this"
| "callStep compile (StepY pat) this = SRE_y compile pat this"
| "callStep compile (StepG pat) this = SRE_g compile pat this"
| "callStep compile (StepV pat) this = SRE_v compile pat this"
| "callStep compile (StepS pat replacement) this = SRE_s compile pat replacement this"
| "callStep compile (StepC replacement) this = SRE_c replacement this"
| "callStep compile StepD this = SRE_d this"
| "callStep compile StepP this = SRE_p this"
| "callStep compile (StepN start endOpt) this = SRE_n start endOpt this"
| "callStep compile (StepL start endOpt) this = SRE_l start endOpt this"

definition chain :: "(string \<Rightarrow> char matcher) \<Rightarrow> Step list \<Rightarrow> string \<Rightarrow> SRE" where
  "chain compile steps inp = fold (callStep compile) steps (sre inp)"

text \<open>
  The operator of the command algebra that the specification lets each step stand for:
  the operator of the same letter, with the identity \<open>p()\<close> where the operator wants a
  command. A guard whose pattern does not match then leaves the value alone, and a
  range step keeps the text outside the range.
\<close>

fun claimedCommand :: "(string \<Rightarrow> char matcher) \<Rightarrow> Step \<Rightarrow> char Command" where
  "claimedCommand compile (StepX pat) = xCmd (toRegExp compile ''g'' pat) pCmd"
| "claimedCommand compile (StepY pat) = yCmd (toRegExp compile ''g'' pat) pCmd"
| "claimedCommand compile (StepG pat) = gCmd (toRegExp compile [] pat) pCmd"
| "claimedCommand compile (StepV pat) = vCmd (toRegExp compile [] pat) pCmd"
| "claimedCommand compile (StepS pat replacement) = sCmd (toRegExp compile ''g'' pat) replacement"
| "claimedCommand compile (StepC replacement) = cCmd replacement"
| "claimedCommand compile StepD = dCmd"
| "claimedCommand compile StepP = pCmd"
| "claimedCommand compile (StepN start endOpt) = nCmd start endOpt pCmd"
| "claimedCommand compile (StepL start endOpt) = lCmd start endOpt pCmd"

text \<open>
  The operator each step is in the code, for the steps other than \<open>n\<close> and \<open>l\<close>: a
  guard is \<open>ifMatch(P, p(), d())\<close>, a veto \<open>ifMatch(P, d(), p())\<close>, the others are as
  above.
\<close>

fun stepCommand :: "(string \<Rightarrow> char matcher) \<Rightarrow> Step \<Rightarrow> char Command" where
  "stepCommand compile (StepG pat) = ifMatch (toRegExp compile [] pat) pCmd dCmd"
| "stepCommand compile (StepV pat) = ifMatch (toRegExp compile [] pat) dCmd pCmd"
| "stepCommand compile step = claimedCommand compile step"

fun isRangeStep :: "Step \<Rightarrow> bool" where
  "isRangeStep (StepN start endOpt) = True"
| "isRangeStep (StepL start endOpt) = True"
| "isRangeStep step = False"

section \<open>dsl.ts: the lexer\<close>

record TokenDef =
  td_name :: string
  td_pattern :: "char RegExp"
  td_skip :: bool

record LexToken =
  tk_type :: string
  tk_value :: string
  tk_groups :: "string option list"
  tk_start :: nat
  tk_end :: nat

text \<open>\<open>s[i]\<close> on a string: \<open>undefined\<close> beyond the end.\<close>

definition charAt :: "string \<Rightarrow> nat \<Rightarrow> char option" where
  "charAt str i = (if i < length str then Some (str ! i) else None)"

function countGroupsFrom :: "string \<Rightarrow> nat \<Rightarrow> nat \<Rightarrow> nat" where
  "countGroupsFrom pat i count =
     (if i < length pat then
        (if charAt pat i = Some (CHR 0x5C) then countGroupsFrom pat (i + 2) count
         else if charAt pat i = Some CHR ''(''
         then (if charAt pat (i + 1) \<noteq> Some CHR ''?''
               then countGroupsFrom pat (i + 1) (count + 1)
               else countGroupsFrom pat (i + 1) count)
         else countGroupsFrom pat (i + 1) count)
      else count)"
  by pat_completeness auto
termination
  by (relation "measure (\<lambda>(pat, i, count). length pat - i)") auto

declare countGroupsFrom.simps [simp del]

definition countGroups :: "string \<Rightarrow> nat" where
  "countGroups pat = countGroupsFrom pat 0 0"

text \<open>The first loop of \<open>createLexer\<close>: \<open>groupOffsets\<close>, from \<open>offset = 1\<close>.\<close>

fun groupOffsetsFrom :: "nat \<Rightarrow> TokenDef list \<Rightarrow> nat list" where
  "groupOffsetsFrom offset [] = []"
| "groupOffsetsFrom offset (d # ds) =
     offset # groupOffsetsFrom (offset + (1 + countGroups (source (td_pattern d)))) ds"

definition combinedSource :: "TokenDef list \<Rightarrow> string" where
  "combinedSource defs =
     join_with ''|'' (map (\<lambda>d. ''('' @ source (td_pattern d) @ '')'') defs)"

text \<open>
  What the closure returned by \<open>createLexer\<close> holds: the definitions, the offsets and
  the combined pattern, which the host compiles from the combined source. The
  combined pattern is global and its \<open>lastIndex\<close> is the only state of the lexer.
\<close>

record Lexer =
  lx_defs :: "TokenDef list"
  lx_groupOffsets :: "nat list"
  lx_combined :: "char matcher"

definition createLexer :: "(string \<Rightarrow> char matcher) \<Rightarrow> TokenDef list \<Rightarrow> Lexer" where
  "createLexer compile defs =
     \<lparr>lx_defs = defs,
      lx_groupOffsets = groupOffsetsFrom 1 defs,
      lx_combined = compile (combinedSource defs)\<rparr>"

text \<open>\<open>match[i] !== undefined\<close>; an index beyond the array reads \<open>undefined\<close>.\<close>

definition groupDefined :: "char ExecArray \<Rightarrow> nat \<Rightarrow> bool" where
  "groupDefined m i = (i < length (m_array m) \<and> m_array m ! i \<noteq> None)"

text \<open>
  The inner \<open>for\<close> loop, from definition \<open>i\<close> on, on the pair of \<open>tokens\<close> and
  \<open>lastEnd\<close>; it stops at the first definition whose group is defined.
\<close>

function classifyFrom :: "Lexer \<Rightarrow> string \<Rightarrow> char ExecArray \<Rightarrow> nat \<Rightarrow> LexToken list \<times> nat
                            \<Rightarrow> LexToken list \<times> nat" where
  "classifyFrom L inp m i (tokens, lastEnd) =
     (if i < length (lx_defs L) then
        (if groupDefined m (lx_groupOffsets L ! i) then
           (let tokens1 =
                  (if m_index m > lastEnd
                   then tokens @ [\<lparr>tk_type = ''ERROR'',
                                    tk_value = slice inp lastEnd (m_index m),
                                    tk_groups = [],
                                    tk_start = lastEnd,
                                    tk_end = m_index m\<rparr>]
                   else tokens);
                tokens2 =
                  (if \<not> td_skip (lx_defs L ! i)
                   then tokens1 @ [\<lparr>tk_type = td_name (lx_defs L ! i),
                                     tk_value = matched m,
                                     tk_groups = m_array m,
                                     tk_start = m_index m,
                                     tk_end = m_index m + length (matched m)\<rparr>]
                   else tokens1)
            in (tokens2, m_index m + length (matched m)))
         else classifyFrom L inp m (i + 1) (tokens, lastEnd))
      else (tokens, lastEnd))"
  by pat_completeness auto
termination
  by (relation "measure (\<lambda>(L, inp, m, i, acc). length (lx_defs L) - i)") auto

declare classifyFrom.simps [simp del]

text \<open>
  The \<open>while\<close> loop on \<open>combined.exec(input)\<close>, with the pattern's \<open>lastIndex\<close> as
  an argument. The loop ends when \<open>exec\<close> fails, which resets \<open>lastIndex\<close> to 0.
\<close>

function lexLoop :: "Lexer \<Rightarrow> string \<Rightarrow> nat \<Rightarrow> LexToken list \<times> nat \<Rightarrow> LexToken list \<times> nat" where
  "lexLoop L inp lastIndex acc =
     (case execFrom (lx_combined L) False inp lastIndex of
        None \<Rightarrow> acc
      | Some m \<Rightarrow>
          lexLoop L inp
            (if length (matched m) = 0 then m_index m + length (matched m) + 1
             else m_index m + length (matched m))
            (classifyFrom L inp m 0 acc))"
  by pat_completeness auto
termination
proof (relation "measure (\<lambda>(L, inp, lastIndex, acc). Suc (length inp) - lastIndex)")
  show "wf (measure (\<lambda>(L, inp, lastIndex, acc). Suc (length inp) - lastIndex))"
    by simp
next
  fix L :: Lexer and inp :: string and lastIndex :: nat and acc :: "LexToken list \<times> nat"
    and m :: "char ExecArray"
  assume "execFrom (lx_combined L) False inp lastIndex = Some m"
  then have "lastIndex \<le> m_index m \<and> m_index m \<le> length inp"
  proof (induction "lx_combined L" False inp lastIndex rule: execFrom.induct)
    case (1 S lastIndex)
    note unfold = execFrom.simps [of "lx_combined L" False S lastIndex]
    show ?case
    proof (cases "lastIndex > length S")
      case True
      with "1.prems" unfold show ?thesis by simp
    next
      case False
      show ?thesis
      proof (cases "lx_combined L S lastIndex")
        case None
        with False "1.prems" unfold
        have "execFrom (lx_combined L) False S (lastIndex + 1) = Some m"
          by simp
        with "1.hyps" [OF False None] show ?thesis by simp
      next
        case (Some r)
        with False "1.prems" unfold show ?thesis by (cases r) auto
      qed
    qed
  qed
  then show "((L, inp,
                if length (matched m) = 0 then m_index m + length (matched m) + 1
                else m_index m + length (matched m),
                classifyFrom L inp m 0 acc),
               L, inp, lastIndex, acc)
             \<in> measure (\<lambda>(L, inp, lastIndex, acc). Suc (length inp) - lastIndex)"
    by (cases "matched m") auto
qed

declare lexLoop.simps [simp del]

text \<open>
  One call of the lexer with the combined pattern's \<open>lastIndex\<close> at \<open>lastIndex\<close>:
  the tokens, and the \<open>lastIndex\<close> the call leaves behind.
\<close>

definition lexer :: "Lexer \<Rightarrow> string \<Rightarrow> nat \<Rightarrow> LexToken list \<times> nat" where
  "lexer L inp lastIndex =
     (case lexLoop L inp lastIndex ([], 0) of
        (tokens, lastEnd) \<Rightarrow>
          ((if lastEnd < length inp
            then tokens @ [\<lparr>tk_type = ''ERROR'',
                             tk_value = drop lastEnd inp,
                             tk_groups = [],
                             tk_start = lastEnd,
                             tk_end = length inp\<rparr>]
            else tokens), 0))"

subsection \<open>Reading a token sequence\<close>





subsection \<open>Two lexers for the worked examples\<close>




text \<open>
  The definitions \<open>A = /(?<n>a)/\<close>, \<open>B = /b/\<close> and \<open>C = /c/\<close>. Their combined
  source is \<open>((?<n>a))|(b)|(c)\<close>, in which the host numbers the groups from the left:
  1 is the wrapper of \<open>A\<close>, 2 the named group inside it, 3 the wrapper of \<open>B\<close> and 4
  the wrapper of \<open>C\<close>. \<open>namedGroupMatcher\<close> is the host's matcher for it.
\<close>

definition namedGroupMatcher :: "char matcher" where
  "namedGroupMatcher S i =
     (case charAt S i of
        None \<Rightarrow> None
      | Some ch \<Rightarrow>
          (if ch = CHR ''a'' then Some (1, [Some ''a'', Some ''a'', None, None])
           else if ch = CHR ''b'' then Some (1, [None, None, Some ''b'', None])
           else if ch = CHR ''c'' then Some (1, [None, None, None, Some ''c''])
           else None))"

definition namedGroupHost :: "string \<Rightarrow> char matcher" where
  "namedGroupHost src =
     (if src = ''((?<n>a))|(b)|(c)'' then namedGroupMatcher else (\<lambda>S i. None))"

definition namedGroupDefs :: "TokenDef list" where
  "namedGroupDefs =
     [\<lparr>td_name = ''A'',
       td_pattern = \<lparr>source = ''(?<n>a)'', flags = [], matchAt = literalMatcher ''a'', rid = 0,
                     unitCode = of_char\<rparr>,
       td_skip = False\<rparr>,
      \<lparr>td_name = ''B'', td_pattern = literalRegExp ''b'' [] 0, td_skip = False\<rparr>,
      \<lparr>td_name = ''C'', td_pattern = literalRegExp ''c'' [] 0, td_skip = False\<rparr>]"

section \<open>template.ts: substituteValue\<close>

text \<open>
  \<open>result[newKey] = v\<close> on an object under construction: a key already there keeps
  its place and takes the new value, a new key goes to the end. (The host's reordering
  of integer-like keys is outside the model.)
\<close>

fun setProp :: "string \<Rightarrow> jvalue \<Rightarrow> (string \<times> jvalue) list \<Rightarrow> (string \<times> jvalue) list" where
  "setProp k v [] = [(k, v)]"
| "setProp k v (kv # kvs) = (if fst kv = k then (k, v) # kvs else kv # setProp k v kvs)"

text \<open>
  \<open>substituteValue\<close>, with the loops over the elements of an array and the entries of
  an object as functions of their own; the key of an entry is substituted before its
  value.
\<close>

fun substituteValue :: "(jvalue \<Rightarrow> string) \<Rightarrow> jvalue \<Rightarrow> TemplateContext \<Rightarrow> env \<Rightarrow> jvalue \<times> env"
  and substituteItems :: "(jvalue \<Rightarrow> string) \<Rightarrow> jvalue list \<Rightarrow> TemplateContext \<Rightarrow> env
                            \<Rightarrow> jvalue list \<times> env"
  and substituteEntries :: "(jvalue \<Rightarrow> string) \<Rightarrow> (string \<times> jvalue) list \<Rightarrow> TemplateContext
                            \<Rightarrow> (string \<times> jvalue) list \<Rightarrow> env \<Rightarrow> (string \<times> jvalue) list \<times> env"
where
  "substituteValue stringify (JStr t) ctx e =
     (case substituteString stringify t ctx e of (r, e') \<Rightarrow> (JStr r, e'))"
| "substituteValue stringify (JArr items) ctx e =
     (case substituteItems stringify items ctx e of (rs, e') \<Rightarrow> (JArr rs, e'))"
| "substituteValue stringify (JObj entries) ctx e =
     (case substituteEntries stringify entries ctx [] e of (rs, e') \<Rightarrow> (JObj rs, e'))"
| "substituteValue stringify JNull ctx e = (JNull, e)"
| "substituteValue stringify (JBool b) ctx e = (JBool b, e)"
| "substituteValue stringify (JNum i) ctx e = (JNum i, e)"
| "substituteItems stringify [] ctx e = ([], e)"
| "substituteItems stringify (item # items) ctx e =
     (case substituteValue stringify item ctx e of
        (r, e') \<Rightarrow>
          (case substituteItems stringify items ctx e' of (rs, e'') \<Rightarrow> (r # rs, e'')))"
| "substituteEntries stringify [] ctx result e = (result, e)"
| "substituteEntries stringify ((k, v) # entries) ctx result e =
     (case substituteString stringify k ctx e of
        (newKey, e') \<Rightarrow>
          (case substituteValue stringify v ctx e' of
             (r, e'') \<Rightarrow>
               substituteEntries stringify entries ctx (setProp newKey r result) e''))"

definition parsePath :: "string \<Rightarrow> string list" where
  "parsePath p = pathParts_of p"

section \<open>pattern.ts\<close>

record PatternDef =
  pd_name :: string
  pd_watch :: string
  pd_x :: "string option"
  pd_g :: "string option"
  pd_v :: "string option"
  pd_emit :: string
  pd_emit_path :: string
  pd_template :: jvalue
  pd_then :: "string option"

record CompiledPattern =
  cp_name :: string
  cp_watch :: string
  cp_watchMatcher :: "string \<Rightarrow> bool"
  cp_x :: "char RegExp option"
  cp_g :: "char RegExp option"
  cp_v :: "char RegExp option"
  cp_emit :: string
  cp_emit_path :: string
  cp_template :: jvalue
  cp_then :: "string option"

record Metadata =
  md_version :: "int option"
  md_hash :: "string option"
  md_created_at :: "string option"
  md_updated_at :: "string option"
  md_produced_by :: "string option"

record Scroll =
  sc_key :: string
  sc_type :: string
  sc_metadata :: "Metadata option"
  sc_data :: jvalue

text \<open>
  \<open>def.x ? new RegExp(def.x) : undefined\<close>: an absent or empty source gives no
  pattern. A source the host rejects makes \<open>new RegExp\<close> throw; the model takes
  \<open>compile\<close> to be total.
\<close>

definition optRegExp :: "(string \<Rightarrow> char matcher) \<Rightarrow> string option \<Rightarrow> char RegExp option" where
  "optRegExp compile src =
     (case src of
        None \<Rightarrow> None
      | Some t \<Rightarrow> (if t = [] then None else Some (newRegExp compile t [] 0)))"

definition compilePattern :: "(string \<Rightarrow> char matcher) \<Rightarrow> PatternDef \<Rightarrow> CompiledPattern" where
  "compilePattern compile def =
     \<lparr>cp_name = pd_name def,
      cp_watch = pd_watch def,
      cp_watchMatcher = globMatch (pd_watch def),
      cp_x = optRegExp compile (pd_x def),
      cp_g = optRegExp compile (pd_g def),
      cp_v = optRegExp compile (pd_v def),
      cp_emit = pd_emit def,
      cp_emit_path = pd_emit_path def,
      cp_template = pd_template def,
      cp_then = pd_then def\<rparr>"

text \<open>
  \<open>dataStr.match(re)\<close>: for a pattern that is not global the result of \<open>exec\<close>; for
  a global one the list of all matched texts, found by the host's loop, with
  \<open>lastIndex\<close> back at 0.
\<close>

definition stringMatch :: "char RegExp \<Rightarrow> string \<Rightarrow> store \<Rightarrow> string option list option \<times> store"
where
  "stringMatch re S st =
     (if isGlobal re then
        (case hostMatches re S of
           [] \<Rightarrow> (None, st(rid re := 0))
         | m # ms \<Rightarrow> (Some (map (\<lambda>x. Some (matched x)) (m # ms)), st(rid re := 0)))
      else (case exec re S st of
              (None, st') \<Rightarrow> (None, st')
            | (Some m, st') \<Rightarrow> (Some (m_array m), st')))"

text \<open>
  \<open>applyPattern\<close>. The state is the store of the patterns' \<open>lastIndex\<close> and the
  environment of \<open>generateId\<close>.
\<close>

definition applyPattern ::
  "(jvalue \<Rightarrow> string) \<Rightarrow> CompiledPattern \<Rightarrow> Scroll \<Rightarrow> store \<times> env \<Rightarrow> Scroll option \<times> (store \<times> env)"
where
  "applyPattern stringify pat scroll se =
     (case se of (st, e) \<Rightarrow>
      if \<not> cp_watchMatcher pat (sc_key scroll) then (None, (st, e))
      else
        let dataStr = (case sc_data scroll of JStr t \<Rightarrow> t | v \<Rightarrow> stringify v);
            (guardFails, st1) =
              (case cp_g pat of
                 None \<Rightarrow> (False, st)
               | Some re \<Rightarrow> (case test re dataStr st of (r, st') \<Rightarrow> (\<not> r, st')))
        in if guardFails then (None, (st1, e))
           else
             let (vetoed, st2) =
                   (case cp_v pat of
                      None \<Rightarrow> (False, st1)
                    | Some re \<Rightarrow> test re dataStr st1)
             in if vetoed then (None, (st2, e))
                else
                  let (caps, st3) =
                        (case cp_x pat of
                           None \<Rightarrow> ([], st2)
                         | Some re \<Rightarrow>
                             (case stringMatch re dataStr st2 of
                                (None, st') \<Rightarrow> ([], st')
                              | (Some arr, st') \<Rightarrow> (arr, st')));
                      pathSegments = parsePath (sc_key scroll);
                      ctx = \<lparr>captures = Some caps,
                             path = Some pathSegments,
                             data = Some (case sc_data scroll of
                                            JObj kvs \<Rightarrow> JObj kvs
                                          | JArr xs \<Rightarrow> JArr xs
                                          | v \<Rightarrow> JObj []),
                             input = Some dataStr\<rparr>;
                      (outputPath, e1) = substituteString stringify (cp_emit_path pat) ctx e;
                      (outputData, e2) = substituteValue stringify (cp_template pat) ctx e1
                  in (Some \<lparr>sc_key = outputPath,
                            sc_type = cp_emit pat,
                            sc_metadata =
                              Some \<lparr>md_version = Some 1, md_hash = None, md_created_at = None,
                                    md_updated_at = None, md_produced_by = Some (cp_name pat)\<rparr>,
                            sc_data = outputData\<rparr>,
                      (st3, e2)))"

subsection \<open>PatternEngine\<close>

text \<open>
  The registry \<open>Map<string, CompiledPattern>\<close> in insertion order. \<open>add\<close> sets the
  entry under the pattern's name.
\<close>

type_synonym registry = "(string \<times> CompiledPattern) list"

fun mapSet :: "string \<Rightarrow> CompiledPattern \<Rightarrow> registry \<Rightarrow> registry" where
  "mapSet k v [] = [(k, v)]"
| "mapSet k v (kv # kvs) = (if fst kv = k then (k, v) # kvs else kv # mapSet k v kvs)"

definition add :: "(string \<Rightarrow> char matcher) \<Rightarrow> PatternDef \<Rightarrow> registry \<Rightarrow> registry" where
  "add compile def patterns =
     (let compiled = compilePattern compile def in mapSet (cp_name compiled) compiled patterns)"

text \<open>\<open>pattern.then\<close> names a registered pattern: the reaction is to be queued.\<close>

definition cascades :: "registry \<Rightarrow> CompiledPattern \<Rightarrow> bool" where
  "cascades patterns pat =
     (case cp_then pat of
        None \<Rightarrow> False
      | Some t \<Rightarrow> t \<noteq> [] \<and> map_of patterns t \<noteq> None)"

text \<open>
  The \<open>for\<close> loop of \<open>apply\<close> over the registered patterns, for the scroll
  \<open>current\<close>; \<open>rest\<close> is what is left of the registry to go through.
\<close>

fun forPatterns ::
  "(jvalue \<Rightarrow> string) \<Rightarrow> registry \<Rightarrow> registry \<Rightarrow> Scroll
     \<Rightarrow> Scroll list \<times> Scroll list \<times> (store \<times> env)
     \<Rightarrow> Scroll list \<times> Scroll list \<times> (store \<times> env)" where
  "forPatterns stringify patterns [] current acc = acc"
| "forPatterns stringify patterns ((name, pat) # rest) current (reactions, queue, se) =
     (case applyPattern stringify pat current se of
        (None, se') \<Rightarrow> forPatterns stringify patterns rest current (reactions, queue, se')
      | (Some reaction, se') \<Rightarrow>
          forPatterns stringify patterns rest current
            (reactions @ [reaction],
             (if cascades patterns pat then queue @ [reaction] else queue),
             se'))"

text \<open>
  The \<open>while\<close> loop of \<open>apply\<close> on the queue. The loop need not end, so the
  function is partial: \<open>None\<close> is a call that never returns.
\<close>

partial_function (option) applyLoop ::
  "(jvalue \<Rightarrow> string) \<Rightarrow> registry \<Rightarrow> Scroll list \<Rightarrow> string set \<Rightarrow> Scroll list
     \<Rightarrow> store \<times> env \<Rightarrow> (Scroll list \<times> (store \<times> env)) option" where
  "applyLoop stringify patterns queue visited reactions se =
     (case queue of
        [] \<Rightarrow> Some (reactions, se)
      | current # rest \<Rightarrow>
          (let key = sc_key current @ '':'' @ sc_type current in
           if key \<in> visited then applyLoop stringify patterns rest visited reactions se
           else (case forPatterns stringify patterns patterns current (reactions, rest, se) of
                   (reactions', queue', se') \<Rightarrow>
                     applyLoop stringify patterns queue' (insert key visited) reactions' se')))"

declare applyLoop.simps [code]

definition apply_scroll ::
  "(jvalue \<Rightarrow> string) \<Rightarrow> registry \<Rightarrow> Scroll \<Rightarrow> store \<times> env
     \<Rightarrow> (Scroll list \<times> (store \<times> env)) option" where
  "apply_scroll stringify patterns scroll se = applyLoop stringify patterns [scroll] {} [] se"

subsection \<open>A rule that answers every scroll with a scroll of a longer key\<close>

definition growDef :: PatternDef where
  "growDef =
     \<lparr>pd_name = ''A'', pd_watch = ''/**'', pd_x = None, pd_g = None, pd_v = None,
      pd_emit = ''t'', pd_emit_path = ''/${path.0}x'', pd_template = JObj [],
      pd_then = Some ''A''\<rparr>"

definition growScroll :: "nat \<Rightarrow> jvalue \<Rightarrow> Metadata option \<Rightarrow> Scroll" where
  "growScroll k d md =
     \<lparr>sc_key = ''/a'' @ replicate k CHR ''x'', sc_type = ''t'', sc_metadata = md, sc_data = d\<rparr>"

text \<open>The metadata of a reaction of that rule, and the entry of the visited-set for a key.\<close>

definition growMeta :: "Metadata option" where
  "growMeta = Some \<lparr>md_version = Some 1, md_hash = None, md_created_at = None,
                    md_updated_at = None, md_produced_by = Some ''A''\<rparr>"

definition growKey :: "nat \<Rightarrow> string" where
  "growKey k = ''/a'' @ replicate k CHR ''x'' @ '':t''"

section \<open>Results for glob.ts\<close>

lemma extract_fst_matchSegments:
  "fst (extractAt segs parts gi pi caps) = matchSegments segs parts gi pi"
  "fst (extractSkip segs parts gi pi skip caps) = matchSkip segs parts gi pi skip"
proof (induction segs parts gi pi caps and segs parts gi pi skip caps
       rule: extractAt_extractSkip.induct)
  case (1 segments pathParts gi pi captures)
  show ?case
  proof (cases "gi \<ge> length segments")
    case True
    then show ?thesis by simp
  next
    case False
    then show ?thesis
      using "1" by (cases "segments ! gi") (simp_all del: extractSkip.simps matchSkip.simps)
  qed
next
  case (2 segments pathParts gi pi skip captures)
  show ?case
  proof (cases "pi + skip \<le> length pathParts")
    case False
    then show ?thesis by simp
  next
    case True
    obtain b c where e: "extractAt segments pathParts (gi + 1) (pi + skip) captures = (b, c)"
      by (cases "extractAt segments pathParts (gi + 1) (pi + skip) captures")
    have m: "matchSegments segments pathParts (gi + 1) (pi + skip) = b"
      using "2.IH"(1) [OF True refl] e by simp
    show ?thesis
    proof (cases b)
      case True
      with e m \<open>pi + skip \<le> length pathParts\<close> show ?thesis
        by (simp del: extractAt.simps matchSegments.simps)
    next
      case False
      have "fst (extractSkip segments pathParts gi pi (skip + 1) c)
            = matchSkip segments pathParts gi pi (skip + 1)"
        using "2.IH"(2) [OF True refl e [symmetric]] False by simp
      with e m False \<open>pi + skip \<le> length pathParts\<close> show ?thesis
        by (simp del: extractAt.simps matchSegments.simps)
    qed
  qed
qed

text \<open>
  The match/no-match half of the contract holds for every pattern and path: the result
  is \<open>null\<close> exactly when the pattern does not match.
\<close>

lemma extractGlobCaptures_None_iff:
  "extractGlobCaptures pat pth = None \<longleftrightarrow> \<not> globMatch pat pth"
proof -
  obtain b c where e: "extractAt (parseGlobSegments pat) (pathParts_of pth) 0 0 [] = (b, c)"
    by (cases "extractAt (parseGlobSegments pat) (pathParts_of pth) 0 0 []")
  have "matchSegments (parseGlobSegments pat) (pathParts_of pth) 0 0 = b"
    using extract_fst_matchSegments(1)
            [of "parseGlobSegments pat" "pathParts_of pth" 0 0 "[]"] e
    by simp
  with e show ?thesis
    by (cases b) (simp_all add: extractGlobCaptures_def globMatch_def)
qed

text \<open>
  C4. On \<open>/**/*\<close> against \<open>/a/b\<close> the double wildcard aligns with \<open>a\<close> and the
  single wildcard with \<open>b\<close>, so the claim asks for \<open>[a, b]\<close>. The code returns
  \<open>[a, b, a]\<close>: the first \<open>a\<close> was pushed by the single wildcard on the abandoned
  branch \<open>skip = 0\<close> and never removed, and the double wildcard's own capture is pushed
  after the recursive call returns, behind the capture of the segment to its right.
  On \<open>/**/x/*\<close> against \<open>/a/x/b\<close> nothing is left over and the order alone is
  wrong: \<open>[b, a]\<close> for \<open>[a, b]\<close>.
\<close>

theorem extractGlobCaptures_stale_and_misordered:
  "extractGlobCaptures ''/**/*'' ''/a/b'' = Some [''a'', ''b'', ''a'']
   \<and> extractGlobCaptures ''/**/x/*'' ''/a/x/b'' = Some [''b'', ''a'']"
  by code_simp

section \<open>Results for template.ts\<close>

lemma getSubstitution_no_dollar:
  "CHR ''$'' \<notin> set r \<Longrightarrow> getSubstitution caps m s p r = r"
  by (induction caps m s p r rule: getSubstitution.induct) auto

lemma replaceFrom_skip:
  "replaceFrom pat repl s p k t = replaceFrom pat repl s (p + k) 0 (drop k t)"
proof (induction t arbitrary: k p)
  case Nil
  then show ?case by simp
next
  case (Cons c cs)
  show ?case
  proof (cases k)
    case 0
    then show ?thesis by simp
  next
    case (Suc j)
    then show ?thesis using Cons.IH [of "p + 1" j] by simp
  qed
qed

lemma replaceFrom_plain_prefix:
  "CHR ''$'' \<notin> set t \<Longrightarrow>
   replaceFrom (CHR ''$'' # q) repl s p 0 (t @ u)
     = t @ replaceFrom (CHR ''$'' # q) repl s (p + length t) 0 u"
  by (induction t arbitrary: p) auto

lemma replaceFrom_plain:
  "CHR ''$'' \<notin> set t \<Longrightarrow> replaceFrom (CHR ''$'' # q) repl s p 0 t = t"
  using replaceFrom_plain_prefix [of t q repl s p "[]"] by simp

lemma replaceFrom_hit:
  assumes "prefix (c # q) u"
  shows "replaceFrom (c # q) repl s p 0 u
           = getSubstitution [] (c # q) s p repl
             @ replaceFrom (c # q) repl s (p + length (c # q)) 0 (drop (length (c # q)) u)"
proof -
  from assms obtain cs where u: "u = c # cs" by (cases u) auto
  show ?thesis
    using assms unfolding u
    by (simp add: replaceFrom_skip [of _ _ _ _ "length q"])
qed

lemma replaceFrom_miss:
  "\<not> prefix pat (c # cs) \<Longrightarrow>
   replaceFrom pat repl s p 0 (c # cs) = c # replaceFrom pat repl s (p + 1) 0 cs"
  by simp

lemma replaceAllLit_plain:
  "CHR ''$'' \<notin> set t \<Longrightarrow> replaceAllLit (CHR ''$'' # q) repl t = t"
  by (simp add: replaceAllLit_def replaceFrom_plain)

lemma replaceFrom_one_miss:
  assumes "CHR ''$'' \<notin> set pre" "CHR ''$'' \<notin> set rest"
    and "\<not> prefix (CHR ''$'' # q) (CHR ''$'' # rest)"
  shows "replaceFrom (CHR ''$'' # q) repl s p 0 (pre @ CHR ''$'' # rest) = pre @ CHR ''$'' # rest"
  using assms
  by (simp add: replaceFrom_plain_prefix replaceFrom_plain del: replaceFrom.simps)
     (simp add: replaceFrom_plain)

lemma replaceFrom_one_hit:
  assumes "CHR ''$'' \<notin> set pre" "CHR ''$'' \<notin> set post" "CHR ''$'' \<notin> set repl"
  shows "replaceFrom (CHR ''$'' # q) repl s p 0 (pre @ (CHR ''$'' # q) @ post) = pre @ repl @ post"
proof -
  have "replaceFrom (CHR ''$'' # q) repl s p 0 (pre @ (CHR ''$'' # q) @ post)
        = pre @ replaceFrom (CHR ''$'' # q) repl s (p + length pre) 0 ((CHR ''$'' # q) @ post)"
    using assms(1) by (rule replaceFrom_plain_prefix)
  also have "replaceFrom (CHR ''$'' # q) repl s (p + length pre) 0 ((CHR ''$'' # q) @ post)
        = getSubstitution [] (CHR ''$'' # q) s (p + length pre) repl
          @ replaceFrom (CHR ''$'' # q) repl s (p + length pre + length (CHR ''$'' # q)) 0 post"
    using replaceFrom_hit [of "CHR ''$''" q "(CHR ''$'' # q) @ post" repl s "p + length pre"]
    by simp
  also have "\<dots> = repl @ post"
    using assms(2,3) by (simp add: getSubstitution_no_dollar replaceFrom_plain del: replaceFrom.simps)
  finally show ?thesis .
qed

lemma digit_char_eval:
  "digit_char (Suc 0) = CHR ''1''"
  "digit_char 0 = CHR ''0''"
  "digit_char 1 = CHR ''1''"
  "digit_char 2 = CHR ''2''"
  "digit_char 3 = CHR ''3''"
  "digit_char 4 = CHR ''4''"
  "digit_char 5 = CHR ''5''"
  "digit_char 6 = CHR ''6''"
  "digit_char 7 = CHR ''7''"
  "digit_char 8 = CHR ''8''"
  "digit_char 9 = CHR ''9''"
  by (simp_all add: digit_char_def char_of_def bit_0)

lemma hex_char_eval:
  "hex_char (Suc 0) = CHR ''1''"
  "hex_char 0 = CHR ''0''"
  "hex_char 1 = CHR ''1''"
  "hex_char 2 = CHR ''2''"
  "hex_char 3 = CHR ''3''"
  "hex_char 4 = CHR ''4''"
  "hex_char 5 = CHR ''5''"
  "hex_char 6 = CHR ''6''"
  "hex_char 7 = CHR ''7''"
  "hex_char 8 = CHR ''8''"
  "hex_char 9 = CHR ''9''"
  "hex_char 10 = CHR ''a''"
  "hex_char 11 = CHR ''b''"
  "hex_char 12 = CHR ''c''"
  "hex_char 13 = CHR ''d''"
  "hex_char 14 = CHR ''e''"
  "hex_char 15 = CHR ''f''"
  by (simp_all add: hex_char_def char_of_def bit_0)

lemma digit_char_isDigit: "d < 10 \<Longrightarrow> isDigit (digit_char d)"
  by (simp add: isDigit_def digit_char_def)


lemma dec_small: "n < 10 \<Longrightarrow> dec n = [digit_char n]"
  by (subst dec.simps) simp

lemma dec_large: "\<not> n < 10 \<Longrightarrow> dec n = dec (n div 10) @ [digit_char (n mod 10)]"
  by (subst dec.simps) simp

lemma dec_nonempty: "dec n \<noteq> []"
  by (cases "n < 10") (simp_all add: dec_small dec_large)

lemma dec_digits: "c \<in> set (dec n) \<Longrightarrow> isDigit c"
proof (induction n arbitrary: c rule: dec.induct)
  case (1 n)
  show ?case
  proof (cases "n < 10")
    case True
    with "1.prems" show ?thesis by (simp add: dec_small digit_char_isDigit)
  next
    case False
    from "1.prems" have "c \<in> set (dec (n div 10) @ [digit_char (n mod 10)])"
      by (subst (asm) dec_large [OF False])
    then have "c \<in> set (dec (n div 10)) \<or> c = digit_char (n mod 10)"
      by auto
    then show ?thesis
    proof
      assume "c \<in> set (dec (n div 10))"
      then show ?thesis using "1.IH" [OF False] by simp
    next
      assume "c = digit_char (n mod 10)"
      then show ?thesis by (simp add: digit_char_isDigit)
    qed
  qed
qed







lemma dec_hd: "\<exists>c cs. dec n = c # cs \<and> isDigit c"
proof (cases "dec n")
  case Nil
  then show ?thesis using dec_nonempty by simp
next
  case (Cons c cs)
  then show ?thesis using dec_digits [of c n] by simp
qed



lemma fold_fixed: "(\<And>i. i \<in> set xs \<Longrightarrow> f i t = t) \<Longrightarrow> fold f xs t = t"
  by (induction xs) auto

lemma substCaptures_plain: "CHR ''$'' \<notin> set t \<Longrightarrow> substCaptures cs t = t"
  unfolding substCaptures_def by (rule fold_fixed) (simp add: replaceAllLit_plain)


lemma matchData_needs_dollar: "c \<noteq> CHR ''$'' \<Longrightarrow> matchData (c # cs) = None"
  by (simp add: matchData_def)


lemma replaceDataFrom_plain_prefix:
  "CHR ''$'' \<notin> set t \<Longrightarrow> replaceDataFrom st d 0 (t @ u) = t @ replaceDataFrom st d 0 u"
  by (induction t) (auto simp: matchData_needs_dollar)

lemma replaceDataFrom_plain: "CHR ''$'' \<notin> set t \<Longrightarrow> replaceDataFrom st d 0 t = t"
  using replaceDataFrom_plain_prefix [of t st d "[]"] by simp


lemma replaceAllLit_one_miss:
  assumes "CHR ''$'' \<notin> set pre" "CHR ''$'' \<notin> set rest"
    and "\<not> prefix (CHR ''$'' # q) (CHR ''$'' # rest)"
  shows "replaceAllLit (CHR ''$'' # q) repl (pre @ CHR ''$'' # rest) = pre @ CHR ''$'' # rest"
  unfolding replaceAllLit_def using assms by (rule replaceFrom_one_miss)

lemma replaceAllLit_one_hit:
  assumes "CHR ''$'' \<notin> set pre" "CHR ''$'' \<notin> set post" "CHR ''$'' \<notin> set repl"
  shows "replaceAllLit (CHR ''$'' # q) repl (pre @ (CHR ''$'' # q) @ post) = pre @ repl @ post"
  unfolding replaceAllLit_def using assms by (rule replaceFrom_one_hit)

text \<open>The lone placeholder \<open>${N}\<close> between dollar-free texts.\<close>

lemma placeholder_shape:
  "pre @ ''${'' @ dec N @ ''}'' @ post = pre @ CHR ''$'' # (CHR ''{'' # dec N @ CHR ''}'' # post)"
  by simp






lemma substituteString_fst:
  "fst (substituteString st t ctx e) =
     (let r1 = (case captures ctx of None \<Rightarrow> t | Some cs \<Rightarrow> substCaptures cs t);
          r2 = (case path ctx of None \<Rightarrow> r1 | Some ps \<Rightarrow> substPath ps r1);
          r3 = replaceAllLit ''${uuid}'' (fst (generateId e)) r2;
          r4 = (case input ctx of None \<Rightarrow> r3 | Some inp \<Rightarrow> replaceAllLit ''${input}'' inp r3)
      in (case data ctx of None \<Rightarrow> r4 | Some d \<Rightarrow> replaceDataFrom st d 0 r4))"
  by (cases "generateId e") (simp add: substituteString_def Let_def)

lemma substituteString_snd:
  "snd (substituteString st t ctx e) = e\<lparr>ticks := Suc (ticks e)\<rparr>"
  by (simp add: substituteString_def generateId_def Let_def)



lemma not_digit_letters:
  "\<not> isDigit CHR ''p''" "\<not> isDigit CHR ''u''" "\<not> isDigit CHR ''i''" "\<not> isDigit CHR ''d''"
  by (simp_all add: isDigit_def)






lemma fillWith_plain:
  "CHR ''$'' \<notin> set u \<Longrightarrow> \<forall>s\<in>set seps. CHR ''$'' \<notin> set s \<Longrightarrow> CHR ''$'' \<notin> set rest
   \<Longrightarrow> CHR ''$'' \<notin> set (fillWith u seps rest)"
  by (induction seps) auto

lemma replaceFrom_fill_miss:
  assumes "\<forall>s\<in>set seps. CHR ''$'' \<notin> set s" "CHR ''$'' \<notin> set rest"
    and "\<And>x. \<not> prefix (CHR ''$'' # q) (''${uuid}'' @ x)"
  shows "replaceFrom (CHR ''$'' # q) repl s p 0 (fillWith ''${uuid}'' seps rest)
           = fillWith ''${uuid}'' seps rest"
  using assms(1)
proof (induction seps arbitrary: p)
  case Nil
  then show ?case using assms(2) by (simp add: replaceFrom_plain del: replaceFrom.simps)
next
  case (Cons a seps)
  let ?F = "fillWith ''${uuid}'' seps rest"
  have a: "CHR ''$'' \<notin> set a" using Cons.prems by simp
  have "replaceFrom (CHR ''$'' # q) repl s p 0 (a @ ''${uuid}'' @ ?F)
          = a @ replaceFrom (CHR ''$'' # q) repl s (p + length a) 0 (''${uuid}'' @ ?F)"
    using a by (rule replaceFrom_plain_prefix)
  also have "replaceFrom (CHR ''$'' # q) repl s (p + length a) 0 (''${uuid}'' @ ?F)
          = CHR ''$'' # replaceFrom (CHR ''$'' # q) repl s (p + length a + 1) 0 (''{uuid}'' @ ?F)"
    using assms(3) [of ?F] by simp
  also have "replaceFrom (CHR ''$'' # q) repl s (p + length a + 1) 0 (''{uuid}'' @ ?F)
          = ''{uuid}'' @ replaceFrom (CHR ''$'' # q) repl s (p + length a + 1 + length ''{uuid}'') 0 ?F"
    by (rule replaceFrom_plain_prefix) simp
  also have "replaceFrom (CHR ''$'' # q) repl s (p + length a + 1 + length ''{uuid}'') 0 ?F = ?F"
    using Cons.IH Cons.prems by simp
  finally show ?case by simp
qed

lemma replaceDataFrom_fill_miss:
  assumes "\<forall>s\<in>set seps. CHR ''$'' \<notin> set s" "CHR ''$'' \<notin> set rest"
  shows "replaceDataFrom st d 0 (fillWith ''${uuid}'' seps rest) = fillWith ''${uuid}'' seps rest"
  using assms(1)
proof (induction seps)
  case Nil
  then show ?case using assms(2) by (simp add: replaceDataFrom_plain del: replaceDataFrom.simps)
next
  case (Cons a seps)
  let ?F = "fillWith ''${uuid}'' seps rest"
  have a: "CHR ''$'' \<notin> set a" using Cons.prems by simp
  have "replaceDataFrom st d 0 (a @ ''${uuid}'' @ ?F) = a @ replaceDataFrom st d 0 (''${uuid}'' @ ?F)"
    using a by (rule replaceDataFrom_plain_prefix)
  also have "replaceDataFrom st d 0 (''${uuid}'' @ ?F)
               = CHR ''$'' # replaceDataFrom st d 0 (''{uuid}'' @ ?F)"
    by (simp add: matchData_def)
  also have "replaceDataFrom st d 0 (''{uuid}'' @ ?F) = ''{uuid}'' @ replaceDataFrom st d 0 ?F"
    by (rule replaceDataFrom_plain_prefix) simp
  also have "replaceDataFrom st d 0 ?F = ?F"
    using Cons.IH Cons.prems by simp
  finally show ?case by simp
qed

lemma replaceFrom_fill_hit:
  assumes "\<forall>s\<in>set seps. CHR ''$'' \<notin> set s" "CHR ''$'' \<notin> set rest" "CHR ''$'' \<notin> set u"
  shows "replaceFrom ''${uuid}'' u s p 0 (fillWith ''${uuid}'' seps rest) = fillWith u seps rest"
  using assms(1)
proof (induction seps arbitrary: p)
  case Nil
  then show ?case using assms(2) by (simp add: replaceFrom_plain del: replaceFrom.simps)
next
  case (Cons a seps)
  let ?F = "fillWith ''${uuid}'' seps rest"
  have a: "CHR ''$'' \<notin> set a" using Cons.prems by simp
  have "replaceFrom ''${uuid}'' u s p 0 (a @ ''${uuid}'' @ ?F)
          = a @ replaceFrom ''${uuid}'' u s (p + length a) 0 (''${uuid}'' @ ?F)"
    using a by (rule replaceFrom_plain_prefix)
  also have "replaceFrom ''${uuid}'' u s (p + length a) 0 (''${uuid}'' @ ?F)
          = getSubstitution [] ''${uuid}'' s (p + length a) u
            @ replaceFrom ''${uuid}'' u s (p + length a + length ''${uuid}'') 0 ?F"
    using replaceFrom_hit [of "CHR ''$''" "''{uuid}''" "''${uuid}'' @ ?F" u s "p + length a"]
    by simp
  also have "\<dots> = u @ fillWith u seps rest"
    using Cons.IH Cons.prems assms(3) by (simp add: getSubstitution_no_dollar)
  finally show ?case by simp
qed

lemma hex_char_plain: "d < 16 \<Longrightarrow> hex_char d \<noteq> CHR ''$''"
  by (auto simp: hex_char_def char_of_eq_iff take_bit_eq_mod)

lemma toString16_small: "n < 16 \<Longrightarrow> toString16 n = [hex_char n]"
  by (subst toString16.simps) simp

lemma toString16_large:
  "\<not> n < 16 \<Longrightarrow> toString16 n = toString16 (n div 16) @ [hex_char (n mod 16)]"
  by (subst toString16.simps) simp

lemma toString16_plain: "CHR ''$'' \<notin> set (toString16 n)"
proof (induction n rule: toString16.induct)
  case (1 n)
  show ?case
  proof (cases "n < 16")
    case True
    then show ?thesis using hex_char_plain [of n] by (simp add: toString16_small)
  next
    case False
    then show ?thesis
      using "1.IH" [OF False] hex_char_plain [of "n mod 16"] by (simp add: toString16_large)
  qed
qed

lemma generateId_plain: "CHR ''$'' \<notin> set (fst (generateId e))"
  using toString16_plain by (simp add: generateId_def Let_def padStart_def)

lemma uuid_pattern_misses:
  "\<not> prefix (''${'' @ dec i @ ''}'') (''${uuid}'' @ x)"
  "\<not> prefix (''${path.'' @ dec i @ ''}'') (''${uuid}'' @ x)"
  "\<not> prefix ''${input}'' (''${uuid}'' @ x)"
proof -
  obtain c cs where "dec i = c # cs" "isDigit c" using dec_hd by blast
  then show "\<not> prefix (''${'' @ dec i @ ''}'') (''${uuid}'' @ x)"
    using not_digit_letters(2) by auto
qed simp_all

text \<open>
  C1, as amended. Every call of \<open>substituteString\<close> invokes the generator exactly
  once, whatever the template; and in a template made of dollar-free texts and
  occurrences of \<open>${uuid}\<close>, every occurrence is replaced by that one identifier.
\<close>

theorem substituteString_one_id_per_call:
  "snd (substituteString st template ctx e) = e\<lparr>ticks := Suc (ticks e)\<rparr>
   \<and> ((\<forall>s\<in>set seps. CHR ''$'' \<notin> set s) \<and> CHR ''$'' \<notin> set rest \<longrightarrow>
        fst (substituteString st (fillWith ''${uuid}'' seps rest) ctx e)
          = fillWith (fst (generateId e)) seps rest)"
proof (intro conjI impI)
  show "snd (substituteString st template ctx e) = e\<lparr>ticks := Suc (ticks e)\<rparr>"
    by (rule substituteString_snd)
next
  assume a: "(\<forall>s\<in>set seps. CHR ''$'' \<notin> set s) \<and> CHR ''$'' \<notin> set rest"
  let ?T = "fillWith ''${uuid}'' seps rest"
  let ?u = "fst (generateId e)"
  have seps: "\<forall>s\<in>set seps. CHR ''$'' \<notin> set s" and rest: "CHR ''$'' \<notin> set rest"
    using a by simp_all
  have c: "substCaptures cs ?T = ?T" for cs
    unfolding substCaptures_def replaceAllLit_def
    by (rule fold_fixed)
       (use replaceFrom_fill_miss [OF seps rest, where q = "''{'' @ dec _ @ ''}''"]
            uuid_pattern_misses(1) in \<open>simp del: replaceFrom.simps\<close>)
  have p: "substPath ps ?T = ?T" for ps
    unfolding substPath_def replaceAllLit_def
    by (rule fold_fixed)
       (use replaceFrom_fill_miss [OF seps rest, where q = "''{path.'' @ dec _ @ ''}''"]
            uuid_pattern_misses(2) in \<open>simp del: replaceFrom.simps\<close>)
  have u: "replaceAllLit ''${uuid}'' ?u ?T = fillWith ?u seps rest"
    unfolding replaceAllLit_def
    using replaceFrom_fill_hit [OF seps rest generateId_plain] .
  have plain: "CHR ''$'' \<notin> set (fillWith ?u seps rest)"
    using fillWith_plain [OF generateId_plain seps rest] .
  show "fst (substituteString st ?T ctx e) = fillWith ?u seps rest"
    unfolding substituteString_fst
    by (simp add: Let_def c p u plain replaceAllLit_plain replaceDataFrom_plain
          split: option.splits del: replaceDataFrom.simps)
qed

text \<open>
  The theorem at \<open>a${uuid}-${uuid}z\<close>.
\<close>

theorem substituteString_one_id_per_call_witness:
  "snd (substituteString stringifyJ ''a${uuid}-${uuid}z'' emptyContext countingEnv)
     = countingEnv\<lparr>ticks := Suc (ticks countingEnv)\<rparr>
   \<and> fst (substituteString stringifyJ ''a${uuid}-${uuid}z'' emptyContext countingEnv)
     = ''a00000000-00000000z''"
  using substituteString_one_id_per_call
          [of stringifyJ "''a${uuid}-${uuid}z''" emptyContext countingEnv "[''a'', ''-'']" "''z''"]
  by (simp add: generateId_def countingEnv_def padStart_def toString16_small hex_char_eval
        eval_nat_numeral)

text \<open>
  C1 as stated fails: on \<open>${uuid}-${uuid}\<close> the generator runs once, not twice, and
  both occurrences receive \<open>00000000\<close>, although a second call of the generator
  would have given \<open>00000001\<close>.
\<close>

theorem uuid_once_per_call_counterexample:
  "fst (substituteString stringifyJ ''${uuid}-${uuid}'' emptyContext countingEnv)
     = ''00000000-00000000''
   \<and> ticks (snd (substituteString stringifyJ ''${uuid}-${uuid}'' emptyContext countingEnv))
     = ticks countingEnv + 1
   \<and> fst (generateId (snd (generateId countingEnv))) = ''00000001''"
  by (simp add: substituteString_fst substituteString_snd emptyContext_def replaceAllLit_def
        generateId_def countingEnv_def padStart_def toString16_small hex_char_eval Let_def
        eval_nat_numeral)

subsection \<open>The order of the passes\<close>

lemma dec_numerals:
  "dec 0 = ''0''" "dec (Suc 0) = ''1''" "dec 1 = ''1''" "dec 2 = ''2''"
  by (simp_all add: dec_small digit_char_eval)

lemma dec_Suc_Suc_0: "dec (Suc (Suc 0)) = ''2''"
  unfolding numeral_2_eq_2 [symmetric] by (rule dec_numerals(4))

lemma substituteString_passes:
  "fst (substituteString st t ctx e)
     = dataPass st (data ctx)
         (inputPass (input ctx)
            (uuidPass (fst (generateId e))
               (pathPass (path ctx) (capturesPass (captures ctx) t))))"
  by (simp add: substituteString_fst capturesPass_def pathPass_def uuidPass_def inputPass_def
        dataPass_def Let_def)

lemma cascade_captures:
  "substCaptures [c0, Some ''${path.1}'', Some ''${data.k}''] ''${1}|${path.0}|${2}''
     = ''${path.1}|${path.0}|${data.k}''"
  by (simp add: substCaptures_def replaceAllLit_def dec_numerals dec_Suc_Suc_0 capText_def
        isDigit_def eval_nat_numeral upt_rec)

lemma cascade_path:
  "substPath [''${uuid}'', ''${input}''] ''${path.1}|${path.0}|${data.k}''
     = ''${input}|${uuid}|${data.k}''"
  by (simp add: substPath_def replaceAllLit_def dec_numerals dec_Suc_Suc_0 isDigit_def
        eval_nat_numeral upt_rec)

lemma cascade_uuid:
  "replaceAllLit ''${uuid}'' (fst (generateId e)) ''${input}|${uuid}|${data.k}''
     = ''${input}|'' @ fst (generateId e) @ ''|${data.k}''"
  by (simp add: replaceAllLit_def getSubstitution_no_dollar [OF generateId_plain])

lemma cascade_input:
  "replaceAllLit ''${input}'' ''${uuid}${data.k}''
     (''${input}|'' @ fst (generateId e) @ ''|${data.k}'')
     = ''${uuid}${data.k}|'' @ fst (generateId e) @ ''|${data.k}''"
  by (simp add: replaceAllLit_def isDigit_def replaceFrom_plain_prefix generateId_plain)

lemma cascade_data:
  "replaceDataFrom st (JObj [(''k'', JStr V)]) 0
     (''${uuid}${data.k}|'' @ fst (generateId e) @ ''|${data.k}'')
     = ''${uuid}'' @ V @ ''|'' @ fst (generateId e) @ ''|'' @ V"
  by (simp add: matchData_def dataReplacement_def getNestedValue_def isDataPathChar_def Let_def
        replaceDataFrom_plain_prefix generateId_plain)

lemma cascade_result:
  "fst (substituteString st ''${1}|${path.0}|${2}'' (cascadeContext c0 V) e)
     = ''${uuid}'' @ V @ ''|'' @ fst (generateId e) @ ''|'' @ V"
  unfolding substituteString_fst cascadeContext_def
  by (simp only: Let_def TemplateContext.simps option.case cascade_captures cascade_path
        cascade_uuid cascade_input cascade_data)

lemma path_pattern_misses_input:
  "\<not> prefix (''${path.'' @ dec i @ ''}'') ''${input}''"
  by simp

lemma substPath_input_placeholder: "substPath ps ''${input}'' = ''${input}''"
  unfolding substPath_def
proof (rule fold_fixed)
  fix i
  have "replaceAllLit (CHR ''$'' # ''{path.'' @ dec i @ ''}'') (ps ! i) ([] @ CHR ''$'' # ''{input}'')
          = [] @ CHR ''$'' # ''{input}''"
    by (rule replaceAllLit_one_miss) simp_all
  then show "replaceAllLit (''${path.'' @ dec i @ ''}'') (ps ! i) ''${input}'' = ''${input}''"
    by simp
qed

lemma capture_then_input:
  "fst (substituteString st ''${1}''
          \<lparr>captures = Some [c0, Some ''${input}''], path = pth, data = dat,
             input = Some ''X''\<rparr> e) = ''X''"
proof -
  have c: "substCaptures [c0, Some ''${input}''] ''${1}'' = ''${input}''"
    by (simp add: substCaptures_def replaceAllLit_def dec_numerals capText_def isDigit_def)
  have p: "pathPass pth ''${input}'' = ''${input}''"
    by (cases pth) (simp_all add: pathPass_def substPath_input_placeholder)
  have u: "uuidPass (fst (generateId e)) ''${input}'' = ''${input}''"
    by (simp add: uuidPass_def replaceAllLit_def)
  have i: "inputPass (Some ''X'') ''${input}'' = ''X''"
    by (simp add: inputPass_def replaceAllLit_def)
  have d: "dataPass st dat ''X'' = ''X''"
    by (cases dat) (simp_all add: dataPass_def matchData_def)
  show ?thesis
    unfolding substituteString_passes
    by (simp only: TemplateContext.simps capturesPass_def option.case c p u i d)
qed

lemma input_after_captures:
  "fst (substituteString st ''${input}''
          \<lparr>captures = Some [c0, Some ''C''], path = None, data = None,
             input = Some ''${1}''\<rparr> e) = ''${1}''"
  by (simp add: substituteString_fst substCaptures_def replaceAllLit_def dec_small
        digit_char_eval capText_def Let_def isDigit_def)

text \<open>
  C10. \<open>substituteString\<close> is the composition of its five passes in the order
  captures, path, uuid, input, data, each pass reading the text the passes before it
  have produced; this holds for every template, context and identifier. The order
  shows in the results. In \<open>cascadeContext\<close> the placeholder \<open>${1}\<close> becomes
  \<open>${path.1}\<close>, which the path pass turns into \<open>${input}\<close>, which the input pass
  turns into \<open>${uuid}${data.k}\<close>, of which the data pass expands \<open>${data.k}\<close> to
  \<open>V\<close>, while \<open>${uuid}\<close> stays, the uuid pass being over by then; \<open>${path.0}\<close>
  becomes \<open>${uuid}\<close> and then the identifier; \<open>${2}\<close> becomes \<open>${data.k}\<close> and
  then \<open>V\<close>; and \<open>V\<close>, whatever placeholders it holds, is final, no pass following
  the data pass. The instance that the specification names holds whatever the path and
  the data are: a
  capture that reads \<open>${input}\<close> gives the input \<open>X\<close>. Conversely an input that
  reads \<open>${1}\<close> is not expanded.
\<close>

theorem substituteString_passes_in_order:
  "fst (substituteString st t ctx e)
     = dataPass st (data ctx)
         (inputPass (input ctx)
            (uuidPass (fst (generateId e))
               (pathPass (path ctx) (capturesPass (captures ctx) t))))
   \<and> fst (substituteString st ''${1}|${path.0}|${2}'' (cascadeContext c0 V) e)
       = ''${uuid}'' @ V @ ''|'' @ fst (generateId e) @ ''|'' @ V
   \<and> fst (substituteString st ''${1}''
            \<lparr>captures = Some [c1, Some ''${input}''], path = pth, data = dat,
               input = Some ''X''\<rparr> e) = ''X''
   \<and> fst (substituteString st ''${input}''
            \<lparr>captures = Some [c1, Some ''C''], path = None, data = None,
               input = Some ''${1}''\<rparr> e) = ''${1}''"
  using substituteString_passes [of st t ctx e] cascade_result [of st c0 V e]
        capture_then_input [of st c1 pth dat e] input_after_captures [of st c1 e]
  by (intro conjI)

section \<open>Results for commands.ts\<close>

lemma slice_length: "a \<le> length s \<Longrightarrow> a + length (slice s a b) \<le> length s"
  by (simp add: slice_def)

lemma slice_idem: "slice s a (a + length (slice s a (a + k))) = slice s a (a + k)"
  by (simp add: slice_def min_def)

lemma slice_drop: "a \<le> b \<Longrightarrow> slice s a b @ drop b s = drop a s"
proof -
  assume "a \<le> b"
  then have "drop b s = drop (b - a) (drop a s)" by simp
  then show ?thesis unfolding slice_def by (simp only: append_take_drop_id)
qed

lemma slice_empty: "b \<le> a \<Longrightarrow> slice s a b = []"
  by (simp add: slice_def)

lemma execFrom_Some:
  assumes "execFrom mt sticky S lastIndex = Some m"
  shows "lastIndex \<le> m_index m \<and> m_index m \<le> length S
         \<and> (\<exists>len caps. m_array m = Some (slice S (m_index m) (m_index m + len)) # caps)"
  using assms
proof (induction mt sticky S lastIndex rule: execFrom.induct)
  case (1 mt sticky S lastIndex)
  note unfold = execFrom.simps [of mt sticky S lastIndex]
  show ?case
  proof (cases "lastIndex > length S")
    case True
    with "1.prems" unfold show ?thesis by simp
  next
    case False
    show ?thesis
    proof (cases "mt S lastIndex")
      case None
      with False "1.prems" unfold have "\<not> sticky"
        and "execFrom mt sticky S (lastIndex + 1) = Some m"
        by (simp_all split: if_splits)
      with "1.IH" [OF False None] show ?thesis by simp
    next
      case (Some r)
      with False "1.prems" unfold show ?thesis by (cases r) auto
    qed
  qed
qed

lemma execFrom_matched:
  assumes "execFrom mt sticky S lastIndex = Some m"
  shows "matched m = slice S (m_index m) (m_index m + length (matched m))"
    and "m_index m + length (matched m) \<le> length S"
    and "m_array m \<noteq> []"
proof -
  from execFrom_Some [OF assms] obtain len caps where
    i: "m_index m \<le> length S" and
    a: "m_array m = Some (slice S (m_index m) (m_index m + len)) # caps"
    by blast
  have mt: "matched m = slice S (m_index m) (m_index m + len)"
    using a by (simp add: matched_def capText_def)
  show "matched m = slice S (m_index m) (m_index m + length (matched m))"
    unfolding mt by (rule slice_idem [symmetric])
  show "m_index m + length (matched m) \<le> length S"
    unfolding mt using i by (rule slice_length)
  show "m_array m \<noteq> []" using a by simp
qed

lemma spans_ok_mono: "spans_ok inp lo ms \<Longrightarrow> lo' \<le> lo \<Longrightarrow> spans_ok inp lo' ms"
  by (cases ms) auto

lemma isUnicode_globalCopy: "isUnicode (globalCopy pattern) = isUnicode pattern"
  by (auto simp: isUnicode_def globalCopy_def)

text \<open>
  For a pattern without the flags \<open>u\<close> and \<open>v\<close> the loop of \<open>findMatches\<close> ends,
  and its matches are in order, disjoint and hold their part of the text.
\<close>

lemma findLoop_spans:
  assumes "\<not> isUnicode global"
  shows "\<exists>ms. findLoop global inp lastIndex acc = Some (acc @ ms) \<and> spans_ok inp lastIndex ms"
proof (induction "Suc (length inp) - lastIndex" arbitrary: lastIndex acc rule: less_induct)
  case less
  note unfold = findLoop.simps [of global inp lastIndex acc]
  have ex: "execAt global inp lastIndex = execFrom (matchAt global) (isSticky global) inp lastIndex"
    using assms by (simp add: execAt_def)
  show ?case
  proof (cases "execFrom (matchAt global) (isSticky global) inp lastIndex")
    case None
    with unfold ex show ?thesis by simp
  next
    case (Some m)
    let ?e = "m_index m + length (matched m)"
    let ?next = "if length (matched m) = 0 then ?e + 1 else ?e"
    let ?M = "\<lparr>m_text = matched m, m_start = m_index m, m_end = ?e, m_groups = m_array m\<rparr>"
    have li: "lastIndex \<le> m_index m" "m_index m \<le> length inp"
      using execFrom_Some [OF Some] by simp_all
    note mt = execFrom_matched(1,2) [OF Some]
    have "Suc (length inp) - ?next < Suc (length inp) - lastIndex"
      using li by (cases "matched m") auto
    from less [OF this, of "acc @ [?M]"] obtain ms where
      run: "findLoop global inp ?next (acc @ [?M]) = Some ((acc @ [?M]) @ ms)" and
      ok: "spans_ok inp ?next ms" by blast
    have "spans_ok inp ?e ms" using ok by (rule spans_ok_mono) simp
    then have "spans_ok inp lastIndex (?M # ms)" using li mt by simp
    moreover have "findLoop global inp lastIndex acc = Some (acc @ ?M # ms)"
      using unfold ex Some run by simp
    ultimately show ?thesis by blast
  qed
qed

lemma findMatches_spans:
  assumes "\<not> isUnicode pattern"
  shows "\<exists>ms. findMatches pattern inp = Some ms \<and> spans_ok inp 0 ms"
  using findLoop_spans [of "globalCopy pattern" inp 0 "[]"] assms
  by (simp add: findMatches_def isUnicode_globalCopy)

lemma pCmd_apply: "pCmd inp st = Some (inp, st)"
  by (simp add: pCmd_def)

lemma xLoop_pCmd:
  "xLoop pCmd inp ms result lastEnd st = Some (structuralLoop TX inp ms result lastEnd, st)"
  by (induction ms arbitrary: result lastEnd) (simp_all add: pCmd_apply)

lemma yLoop_pCmd:
  "yLoop pCmd inp ms result lastEnd st = Some (structuralLoop TY inp ms result lastEnd, st)"
  by (induction ms arbitrary: result lastEnd) (simp_all add: pCmd_apply slice_empty)

lemma structural_same: "structuralLoop TY inp ms result lastEnd = structuralLoop TX inp ms result lastEnd"
  by (induction ms arbitrary: result lastEnd) simp_all

lemma structuralLoop_rebuild:
  "spans_ok inp lo ms \<Longrightarrow> lastEnd \<le> lo \<Longrightarrow>
   (case structuralLoop TX inp ms result lastEnd of
      (r, le) \<Rightarrow> r @ drop le inp = result @ drop lastEnd inp)"
proof (induction ms arbitrary: lo result lastEnd)
  case Nil
  then show ?case by simp
next
  case (Cons m ms)
  from Cons.prems have ok: "spans_ok inp (m_end m) ms" and
    le: "lastEnd \<le> m_start m" "m_start m \<le> m_end m" and
    tx: "m_text m = slice inp (m_start m) (m_end m)" by auto
  have "(case structuralLoop TX inp ms (result @ slice inp lastEnd (m_start m) @ m_text m) (m_end m) of
           (r, le) \<Rightarrow> r @ drop le inp
              = (result @ slice inp lastEnd (m_start m) @ m_text m) @ drop (m_end m) inp)"
    using Cons.IH [OF ok order_refl] .
  moreover have "(result @ slice inp lastEnd (m_start m) @ m_text m) @ drop (m_end m) inp
                 = result @ drop lastEnd inp"
    using slice_drop [OF le(1), of inp] slice_drop [OF le(2), of inp] tx by simp
  ultimately show ?case by simp
qed

lemma structuralCommand_x: "structuralCommand TX pattern = xCmd pattern pCmd"
proof (intro ext)
  fix inp st
  show "structuralCommand TX pattern inp st = xCmd pattern pCmd inp st"
    by (cases "findMatches pattern inp")
       (simp_all add: structuralCommand_def xCmd_def xLoop_pCmd split: prod.splits)
qed

lemma structuralCommand_y: "structuralCommand TY pattern = yCmd pattern pCmd"
proof (intro ext)
  fix inp st
  show "structuralCommand TY pattern inp st = yCmd pattern pCmd inp st"
  proof (cases "findMatches pattern inp")
    case None
    then show ?thesis by (simp add: structuralCommand_def yCmd_def)
  next
    case (Some ms)
    then show ?thesis
      by (cases "structuralLoop TY inp ms [] 0")
         (simp add: structuralCommand_def yCmd_def yLoop_pCmd pCmd_apply)
  qed
qed

text \<open>
  For a pattern without the flags \<open>u\<close> and \<open>v\<close>, \<open>x(P, p())\<close> and \<open>y(P, p())\<close>
  return their input.
\<close>

lemma x_identity_without_unicode:
  assumes "\<not> isUnicode pattern"
  shows "xCmd pattern pCmd inp st = Some (inp, st)"
proof -
  from findMatches_spans [OF assms, of inp] obtain ms where
    fm: "findMatches pattern inp = Some ms" and ok: "spans_ok inp 0 ms" by blast
  have "(case structuralLoop TX inp ms [] 0 of (r, le) \<Rightarrow> r @ drop le inp = [] @ drop 0 inp)"
    using structuralLoop_rebuild [OF ok order_refl] .
  then show ?thesis
    using fm by (auto simp: xCmd_def xLoop_pCmd split: prod.splits)
qed

lemma y_identity_without_unicode:
  assumes "\<not> isUnicode pattern"
  shows "yCmd pattern pCmd inp st = Some (inp, st)"
proof -
  from findMatches_spans [OF assms, of inp] obtain ms where
    fm: "findMatches pattern inp = Some ms" and ok: "spans_ok inp 0 ms" by blast
  have "(case structuralLoop TX inp ms [] 0 of (r, le) \<Rightarrow> r @ drop le inp = [] @ drop 0 inp)"
    using structuralLoop_rebuild [OF ok order_refl] .
  then show ?thesis
    using fm
    by (auto simp: yCmd_def yLoop_pCmd pCmd_apply structural_same split: prod.splits)
qed

subsection \<open>A pattern with the flag \<open>u\<close> on a surrogate pair\<close>

lemma execAt_face:
  "execAt (globalCopy emptyUnicodePattern) grinningFace 0
     = Some \<lparr>m_index = 0, m_array = [Some []]\<rparr>"
  "execAt (globalCopy emptyUnicodePattern) grinningFace 1
     = Some \<lparr>m_index = 0, m_array = [Some []]\<rparr>"
  by (simp_all add: execAt_def isUnicode_def isSticky_def globalCopy_def emptyUnicodePattern_def
        grinningFace_def execFromU.simps codePointStart_def codePointEnd_def pairAt_def
        isLeadSurrogate_def isTrailSurrogate_def slice_def)

lemma findLoop_face_diverges:
  assumes "findLoop global tx lastIndex matches = Some y"
  shows "\<not> (global = globalCopy emptyUnicodePattern \<and> tx = grinningFace \<and> lastIndex \<le> 1)"
proof -
  let ?P = "\<lambda>(g :: nat RegExp) (t :: nat list) (li :: nat) (ms :: nat Match list)
              (y :: nat Match list).
              \<not> (g = globalCopy emptyUnicodePattern \<and> t = grinningFace \<and> li \<le> 1)"
  have "?P global tx lastIndex matches y"
  proof (rule findLoop.raw_induct [where P = ?P, OF _ assms])
    fix loop :: "nat RegExp \<Rightarrow> nat list \<Rightarrow> nat \<Rightarrow> nat Match list \<Rightarrow> nat Match list option"
      and g t li ms y'
    assume IH: "\<And>g t li ms y. loop g t li ms = Some y \<Longrightarrow> ?P g t li ms y"
      and body: "(case execAt g t li of
           None \<Rightarrow> Some ms
         | Some m \<Rightarrow>
             loop g t
               (if length (matched m) = 0 then m_index m + length (matched m) + 1
                else m_index m + length (matched m))
               (ms @ [\<lparr>m_text = matched m, m_start = m_index m,
                        m_end = m_index m + length (matched m), m_groups = m_array m\<rparr>]))
           = Some y'"
    show "?P g t li ms y'"
    proof
      assume a: "g = globalCopy emptyUnicodePattern \<and> t = grinningFace \<and> li \<le> 1"
      then have "li = 0 \<or> li = 1" by auto
      then have ex: "execAt g t li = Some \<lparr>m_index = 0, m_array = [Some []]\<rparr>"
        using a execAt_face by auto
      have "loop g t 1 (ms @ [\<lparr>m_text = [], m_start = 0, m_end = 0, m_groups = [Some []]\<rparr>])
              = Some y'"
        using body unfolding ex by (simp add: matched_def capText_def)
      from IH [OF this] a show False by simp
    qed
  qed
  then show ?thesis .
qed

lemma findMatches_face: "findMatches emptyUnicodePattern grinningFace = None"
proof (cases "findMatches emptyUnicodePattern grinningFace")
  case None
  then show ?thesis .
next
  case (Some y)
  then have "findLoop (globalCopy emptyUnicodePattern) grinningFace 0 [] = Some y"
    by (simp add: findMatches_def)
  from findLoop_face_diverges [OF this] show ?thesis by simp
qed

lemma findMatches_face_units:
  "findMatches emptyUnicodePattern [97, 98]
     = Some [\<lparr>m_text = [], m_start = 0, m_end = 0, m_groups = [Some []]\<rparr>,
             \<lparr>m_text = [], m_start = 1, m_end = 1, m_groups = [Some []]\<rparr>,
             \<lparr>m_text = [], m_start = 2, m_end = 2, m_groups = [Some []]\<rparr>]"
  by (simp add: findMatches_def findLoop.simps execAt_def isUnicode_def isSticky_def
        globalCopy_def emptyUnicodePattern_def execFromU.simps codePointStart_def
        codePointEnd_def pairAt_def isLeadSurrogate_def isTrailSurrogate_def slice_def
        matched_def capText_def)

lemma x_on_plain_units:
  "xCmd emptyUnicodePattern pCmd [97, 98] freshStore = Some ([97, 98], freshStore)"
  by (simp add: xCmd_def findMatches_face_units pCmd_def slice_def)

lemma x_without_flag:
  "xCmd (emptyUnicodePattern\<lparr>flags := []\<rparr>) pCmd grinningFace freshStore
     = Some (grinningFace, freshStore)"
  by (rule x_identity_without_unicode) (simp add: isUnicode_def)

text \<open>
  C8. \<open>x(/(?:)/u, p())\<close> and \<open>y(/(?:)/u, p())\<close> never return on the text
  \<open>'\u{1F600}'\<close>: the empty match at 0 leaves \<open>lastIndex\<close> at 0, the loop of
  \<open>findMatches\<close> moves it to 1, between the halves of the surrogate pair, and from
  there \<open>exec\<close> matches at 0 again. The same \<open>x\<close> returns its input on the text
  \<open>'ab'\<close>, which has no surrogate pair, and so does \<open>x(/(?:)/, p())\<close>, the pattern
  without the flag, on \<open>'\u{1F600}'\<close>.
\<close>

theorem x_and_y_never_return_on_surrogate_pair:
  "findMatches emptyUnicodePattern grinningFace = None
   \<and> xCmd emptyUnicodePattern pCmd grinningFace freshStore = None
   \<and> yCmd emptyUnicodePattern pCmd grinningFace freshStore = None
   \<and> xCmd emptyUnicodePattern pCmd [97, 98] freshStore = Some ([97, 98], freshStore)
   \<and> xCmd (emptyUnicodePattern\<lparr>flags := []\<rparr>) pCmd grinningFace freshStore
       = Some (grinningFace, freshStore)"
  using findMatches_face x_on_plain_units x_without_flag
  by (simp add: xCmd_def yCmd_def)

section \<open>Results for the fluent builder\<close>

lemma execFrom_literal_a_0: "execFrom (literalMatcher ''a'') False ''a'' 0
   = Some \<lparr>m_index = 0, m_array = [Some ''a'']\<rparr>"
  by (simp add: execFrom.simps literalMatcher_def slice_def)

lemma execFrom_literal_a_1: "execFrom (literalMatcher ''a'') False ''a'' (Suc 0) = None"
  by (simp add: execFrom.simps literalMatcher_def slice_def)

text \<open>
  C5. \<open>g(/a/g, c('X'))\<close> is applied twice to \<open>a\<close>. The first call returns \<open>X\<close> and
  leaves the pattern's \<open>lastIndex\<close> at 1; the second call, on the same input, tests
  from there, finds nothing and returns \<open>a\<close>.
\<close>

theorem guard_on_global_pattern_is_stateful:
  "gCmd (literalRegExp ''a'' ''g'' 0) (cCmd ''X'') ''a'' freshStore
     = Some (''X'', freshStore(0 := 1))
   \<and> gCmd (literalRegExp ''a'' ''g'' 0) (cCmd ''X'') ''a'' (freshStore(0 := 1))
     = Some (''a'', freshStore)"
  by (simp add: gCmd_def test_def exec_def execAt_def isGlobal_def isSticky_def isUnicode_def
        literalRegExp_def freshStore_def cCmd_def matched_def capText_def
        execFrom_literal_a_0 execFrom_literal_a_1 fun_upd_idem_iff)

lemma commands_push: "commands (push cmd this) = commands this @ [cmd]"
  "sre_input (push cmd this) = sre_input this"
  by (simp_all add: push_def)

lemma guard_step:
  "(\<lambda>inp st. case test re inp st of
                (True, st') \<Rightarrow> Some (inp, st') | (False, st') \<Rightarrow> Some ([], st'))
     = ifMatch re pCmd dCmd"
  by (intro ext) (simp add: ifMatch_def pCmd_def dCmd_def split: prod.splits bool.splits)

lemma veto_step:
  "(\<lambda>inp st. case test re inp st of
                (False, st') \<Rightarrow> Some (inp, st') | (True, st') \<Rightarrow> Some ([], st'))
     = ifMatch re dCmd pCmd"
  by (intro ext) (simp add: ifMatch_def pCmd_def dCmd_def split: prod.splits bool.splits)

lemma callStep_commands:
  "\<not> isRangeStep step \<Longrightarrow>
   commands (callStep compile step this) = commands this @ [stepCommand compile step]
   \<and> sre_input (callStep compile step this) = sre_input this"
  by (cases step)
     (simp_all add: SRE_x_def SRE_y_def SRE_g_def SRE_v_def SRE_s_def SRE_c_def SRE_d_def
        SRE_p_def addStructural_def commands_push structuralCommand_x structuralCommand_y
        guard_step veto_step Let_def)

lemma fold_callStep:
  "\<forall>step\<in>set steps. \<not> isRangeStep step \<Longrightarrow>
   commands (fold (callStep compile) steps this) = commands this @ map (stepCommand compile) steps
   \<and> sre_input (fold (callStep compile) steps this) = sre_input this"
proof (induction steps arbitrary: this)
  case Nil
  then show ?case by simp
next
  case (Cons step steps)
  from Cons.prems have a: "\<not> isRangeStep step" and b: "\<forall>step\<in>set steps. \<not> isRangeStep step"
    by simp_all
  show ?case
    using Cons.IH [OF b, of "callStep compile step this"] callStep_commands [OF a, of compile this]
    by simp
qed

text \<open>
  C2, as amended. For a chain without \<open>n\<close> and \<open>l\<close> steps, \<open>value()\<close> is the
  left-to-right composition of the operators that \<open>stepCommand\<close> names: \<open>x(P, p())\<close>
  and \<open>y(P, p())\<close> for \<open>x\<close> and \<open>y\<close>, the commands themselves for \<open>s\<close>, \<open>c\<close>,
  \<open>d\<close>, \<open>p\<close>, and \<open>ifMatch(P, p(), d())\<close> and \<open>ifMatch(P, d(), p())\<close> for \<open>g\<close>
  and \<open>v\<close>: a guard that does not match, and a veto that does, gives the empty string.
  The two sides agree also where they do not return.
\<close>

theorem fluent_chain_is_pipeline:
  "\<forall>step\<in>set steps. \<not> isRangeStep step \<Longrightarrow>
   SRE_value (chain compile steps inp) st = pipe (map (stepCommand compile) steps) inp st"
  using fold_callStep [of steps compile "sre inp"]
  by (simp add: SRE_value_def chain_def pipe_def sre_def)

lemma execFrom_literal_x_abc: "execFrom (literalMatcher ''x'') False ''abc'' 0 = None"
  by (simp add: execFrom.simps literalMatcher_def)

lemma execFrom_literal_b_abc: "execFrom (literalMatcher ''b'') False ''abc'' 0
   = Some \<lparr>m_index = 1, m_array = [Some ''b'']\<rparr>"
  by (simp add: execFrom.simps literalMatcher_def slice_def)

text \<open>
  The theorem on \<open>sre('abc').g(/b/).c('Z').v(/x/)\<close>, whose value is \<open>Z\<close>.
\<close>

theorem fluent_chain_is_pipeline_witness:
  "SRE_value (chain literalMatcher
                [StepG (Rx (literalRegExp ''b'' [] 0)), StepC ''Z'',
                 StepV (Rx (literalRegExp ''x'' [] 0))] ''abc'') freshStore
     = pipe (map (stepCommand literalMatcher)
                [StepG (Rx (literalRegExp ''b'' [] 0)), StepC ''Z'',
                 StepV (Rx (literalRegExp ''x'' [] 0))]) ''abc'' freshStore
   \<and> map_option fst (SRE_value (chain literalMatcher
                [StepG (Rx (literalRegExp ''b'' [] 0)), StepC ''Z'',
                 StepV (Rx (literalRegExp ''x'' [] 0))] ''abc'') freshStore) = Some ''Z''"
proof
  show "SRE_value (chain literalMatcher
                [StepG (Rx (literalRegExp ''b'' [] 0)), StepC ''Z'',
                 StepV (Rx (literalRegExp ''x'' [] 0))] ''abc'') freshStore
     = pipe (map (stepCommand literalMatcher)
                [StepG (Rx (literalRegExp ''b'' [] 0)), StepC ''Z'',
                 StepV (Rx (literalRegExp ''x'' [] 0))]) ''abc'' freshStore"
    by (rule fluent_chain_is_pipeline) simp
  show "map_option fst (SRE_value (chain literalMatcher
                [StepG (Rx (literalRegExp ''b'' [] 0)), StepC ''Z'',
                 StepV (Rx (literalRegExp ''x'' [] 0))] ''abc'') freshStore) = Some ''Z''"
    by code_simp
qed

text \<open>
  C2 as stated fails. \<open>sre('abc').g(/x/).value()\<close> is the empty string, where the
  guard \<open>g(/x/, p())\<close> of the command algebra returns \<open>abc\<close>; and
  \<open>sre('hello').n(0, 2).value()\<close> is \<open>he\<close>, where \<open>n(0, 2, p())\<close> returns
  \<open>hello\<close>.
\<close>

theorem fluent_guard_and_range_counterexample:
  "map_option fst (SRE_value (chain literalMatcher [StepG (Rx (literalRegExp ''x'' [] 0))] ''abc'')
          freshStore) = Some []
   \<and> map_option fst (pipe (map (claimedCommand literalMatcher)
                              [StepG (Rx (literalRegExp ''x'' [] 0))])
          ''abc'' freshStore) = Some ''abc''
   \<and> map_option fst (SRE_value (chain literalMatcher [StepN 0 (Some 2)] ''hello'') freshStore)
       = Some ''he''
   \<and> map_option fst (pipe (map (claimedCommand literalMatcher) [StepN 0 (Some 2)])
          ''hello'' freshStore) = Some ''hello''"
  by (simp add: SRE_value_def chain_def sre_def SRE_g_def SRE_n_def push_def addRange_def
        rangeCommand_def pipe_def gCmd_def nCmd_def test_def exec_def execAt_def isGlobal_def
        isSticky_def isUnicode_def literalRegExp_def toRegExp_def pCmd_def freshStore_def
        execFrom_literal_x_abc startIdx_def endIdx_def slice_def Let_def)

section \<open>Results for the lexer\<close>














text \<open>
  C7. The first definition holds a named group, which the host counts as a capturing
  group and \<open>countGroups\<close> does not. The wrappers of \<open>A\<close>, \<open>B\<close>, \<open>C\<close> are the
  groups 1, 3, 4 of the combined pattern; the code computes 1, 2, 3. On the input
  \<open>b\<close> the groups 1 and 2 are undefined and group 3, the wrapper of \<open>B\<close>, is
  defined; the code reads it as the group of the third definition and emits a token
  named \<open>C\<close>.
\<close>

theorem named_group_shifts_the_offsets:
  "countGroups ''(?<n>a)'' = 0
   \<and> combinedSource namedGroupDefs = ''((?<n>a))|(b)|(c)''
   \<and> lx_groupOffsets (createLexer namedGroupHost namedGroupDefs) = [1, 2, 3]
   \<and> map (\<lambda>t. (tk_type t, tk_value t))
         (fst (lexer (createLexer namedGroupHost namedGroupDefs) ''b'' 0))
       = [(''C'', ''b'')]"
  by code_simp


section \<open>Results for pattern.ts\<close>

lemma split_on_no_sep: "c \<notin> set t \<Longrightarrow> split_on c t = [t]"
  by (induction t) auto

lemma pathParts_of_single:
  "seg \<noteq> [] \<Longrightarrow> CHR ''/'' \<notin> set seg \<Longrightarrow> pathParts_of (CHR ''/'' # seg) = [seg]"
  by (simp add: pathParts_of_def split_on_no_sep)

lemma parse_double: "parseGlobSegments ''/**'' = [Double]"
  by code_simp

lemma globMatch_double_single:
  "seg \<noteq> [] \<Longrightarrow> CHR ''/'' \<notin> set seg \<Longrightarrow> globMatch ''/**'' (CHR ''/'' # seg)"
  by (simp add: globMatch_def parse_double pathParts_of_single)

lemma substituteString_path0:
  assumes "CHR ''$'' \<notin> set seg"
  shows "substituteString stringify ''/${path.0}x''
           \<lparr>captures = Some [], path = Some [seg], data = dd, input = ii\<rparr> e
         = (''/'' @ seg @ ''x'', e\<lparr>ticks := Suc (ticks e)\<rparr>)"
proof -
  have p: "substPath [seg] ''/${path.0}x'' = ''/'' @ seg @ ''x''"
    using replaceAllLit_one_hit [of "''/''" "''x''" seg "''{path.0}''"] assms
    by (simp add: substPath_def dec_small digit_char_eval)
  have plain: "CHR ''$'' \<notin> set (''/'' @ seg @ ''x'')" using assms by simp
  have "fst (substituteString stringify ''/${path.0}x''
           \<lparr>captures = Some [], path = Some [seg], data = dd, input = ii\<rparr> e) = ''/'' @ seg @ ''x''"
    unfolding substituteString_fst
    using plain
    by (simp add: Let_def substCaptures_def p replaceAllLit_plain replaceDataFrom_plain
          split: option.splits del: replaceDataFrom.simps)
  then show ?thesis
    using substituteString_snd [of stringify "''/${path.0}x''"
            "\<lparr>captures = Some [], path = Some [seg], data = dd, input = ii\<rparr>" e]
    by (simp add: prod_eq_iff)
qed

lemma applyPattern_grow:
  "applyPattern stringify (compilePattern compile growDef) (growScroll k d md) (st, e)
     = (Some (growScroll (Suc k) (JObj []) growMeta), (st, e\<lparr>ticks := Suc (ticks e)\<rparr>))"
proof -
  let ?seg = "CHR ''a'' # replicate k CHR ''x''"
  have seg: "?seg \<noteq> []" "CHR ''/'' \<notin> set ?seg" "CHR ''$'' \<notin> set ?seg" by auto
  have key: "sc_key (growScroll k d md) = CHR ''/'' # ?seg" by (simp add: growScroll_def)
  have g: "globMatch ''/**'' (CHR ''/'' # ?seg)" using seg(1,2) by (rule globMatch_double_single)
  have pp: "parsePath (CHR ''/'' # ?seg) = [?seg]"
    unfolding parsePath_def using seg(1,2) by (rule pathParts_of_single)
  have newkey: "''/'' @ ?seg @ ''x'' = ''/a'' @ replicate (Suc k) CHR ''x''"
    by (simp add: replicate_append_same)
  show ?thesis
    unfolding applyPattern_def
    by (simp add: compilePattern_def growDef_def optRegExp_def key g pp Let_def
          substituteString_path0 [OF seg(3)] growScroll_def growMeta_def
          replicate_append_same)
qed

lemma registry_grow: "add compile growDef [] = [(''A'', compilePattern compile growDef)]"
  by (simp add: add_def compilePattern_def growDef_def Let_def)

lemma cascades_grow:
  "cascades [(''A'', compilePattern compile growDef)] (compilePattern compile growDef)"
  by (simp add: cascades_def compilePattern_def growDef_def)

lemma forPatterns_grow:
  "forPatterns stringify [(''A'', compilePattern compile growDef)]
     [(''A'', compilePattern compile growDef)] (growScroll k d md) (reactions, [], (st, e))
   = (reactions @ [growScroll (Suc k) (JObj []) growMeta],
      [growScroll (Suc k) (JObj []) growMeta],
      (st, e\<lparr>ticks := Suc (ticks e)\<rparr>))"
  by (simp add: applyPattern_grow cascades_grow)

lemma growKey_scroll:
  "sc_key (growScroll k d md) @ CHR '':'' # sc_type (growScroll k d md) = growKey k"
  by (simp add: growScroll_def growKey_def)

lemma growKey_length: "length (growKey k) = k + 4"
  by (simp add: growKey_def)

lemma growKey_fresh: "visited \<subseteq> growKey ` {j. j < k} \<Longrightarrow> growKey k \<notin> visited"
proof
  assume sub: "visited \<subseteq> growKey ` {j. j < k}" and "growKey k \<in> visited"
  then obtain j where "j < k" "growKey k = growKey j" by auto
  then have "length (growKey k) = length (growKey j)" by simp
  with \<open>j < k\<close> show False by (simp add: growKey_length)
qed

lemma applyLoop_grow_diverges:
  assumes "applyLoop stringify patterns queue visited reactions se = Some y"
  shows "\<not> (\<exists>compile k d md. patterns = [(''A'', compilePattern compile growDef)]
               \<and> queue = [growScroll k d md] \<and> visited \<subseteq> growKey ` {j. j < k})"
proof -
  let ?P = "\<lambda>(sf :: jvalue \<Rightarrow> string) (pats :: registry) (q :: Scroll list)
              (vis :: string set) (rs :: Scroll list) (se :: store \<times> env)
              (y :: Scroll list \<times> (store \<times> env)).
              \<not> (\<exists>compile k d md. pats = [(''A'', compilePattern compile growDef)]
                     \<and> q = [growScroll k d md] \<and> vis \<subseteq> growKey ` {j. j < k})"
  have "?P stringify patterns queue visited reactions se y"
  proof (rule applyLoop.raw_induct [where P = ?P, OF _ assms])
    fix loop :: "(jvalue \<Rightarrow> string) \<Rightarrow> registry \<Rightarrow> Scroll list \<Rightarrow> string set \<Rightarrow> Scroll list
                   \<Rightarrow> store \<times> env \<Rightarrow> (Scroll list \<times> (store \<times> env)) option"
      and sf pats q vis rs se' y'
    assume IH: "\<And>sf pats q vis rs se y. loop sf pats q vis rs se = Some y
                  \<Longrightarrow> ?P sf pats q vis rs se y"
      and body: "(case q of
           [] \<Rightarrow> Some (rs, se')
         | current # rest \<Rightarrow>
             let key = sc_key current @ '':'' @ sc_type current
             in if key \<in> vis then loop sf pats rest vis rs se'
                else case forPatterns sf pats pats current (rs, rest, se') of
                       (reactions', queue', se'') \<Rightarrow>
                         loop sf pats queue' (insert key vis) reactions' se'') = Some y'"
    show "?P sf pats q vis rs se' y'"
    proof
      assume "\<exists>compile k d md. pats = [(''A'', compilePattern compile growDef)]
                 \<and> q = [growScroll k d md] \<and> vis \<subseteq> growKey ` {j. j < k}"
      then obtain compile k d md where
        p: "pats = [(''A'', compilePattern compile growDef)]" and
        q: "q = [growScroll k d md]" and
        v: "vis \<subseteq> growKey ` {j. j < k}" by blast
      obtain st e where se: "se' = (st, e)" by (cases se')
      have fresh: "growKey k \<notin> vis" using v by (rule growKey_fresh)
      have next_call: "loop sf pats [growScroll (Suc k) (JObj []) growMeta]
              (insert (growKey k) vis) (rs @ [growScroll (Suc k) (JObj []) growMeta])
              (st, e\<lparr>ticks := Suc (ticks e)\<rparr>) = Some y'"
        using body fresh
        unfolding p q se
        by (simp add: growKey_scroll forPatterns_grow Let_def del: forPatterns.simps)
      have "insert (growKey k) vis \<subseteq> growKey ` {j. j < Suc k}"
        using v by (auto simp: less_Suc_eq)
      then have "\<exists>compile k' d md. pats = [(''A'', compilePattern compile growDef)]
                 \<and> [growScroll (Suc k) (JObj []) growMeta] = [growScroll k' d md]
                 \<and> insert (growKey k) vis \<subseteq> growKey ` {j. j < k'}"
        using p by blast
      with IH [OF next_call] show False by blast
    qed
  qed
  then show ?thesis .
qed

text \<open>
  C3. The engine holds the one rule \<open>A\<close>: it watches \<open>/**\<close>, emits to
  \<open>/${path.0}x\<close> and cascades to itself. \<open>apply\<close> on a scroll with key \<open>/a\<close>
  and type \<open>t\<close> never returns: the reactions have the keys \<open>/ax\<close>, \<open>/axx\<close>, ...,
  none of which is in the visited-set when it is taken from the queue.
\<close>

theorem apply_never_returns_on_growing_keys:
  "apply_scroll stringify (add compile growDef []) (growScroll 0 d md) se = None"
proof (cases "apply_scroll stringify (add compile growDef []) (growScroll 0 d md) se")
  case None
  then show ?thesis .
next
  case (Some y)
  then have "applyLoop stringify [(''A'', compilePattern compile growDef)]
               [growScroll 0 d md] {} [] se = Some y"
    by (simp add: apply_scroll_def registry_grow)
  from applyLoop_grow_diverges [OF this] show ?thesis by blast
qed

end
